theory Spec2Isabelle
  imports Main "HOL-Library.Monad_Syntax"
begin

text \<open>
  A shallow embedding of the token lifecycle and of the paginated Microsoft Graph client
  of the Outlook MCP server, with the properties its specification states about them.
  The repository holds several versions of the same modules; each is modelled from its
  own source and named after it: \<open>utils/graph-api.js\<close> and its second version (suffix
  \<open>_v2\<close>), \<open>auth/token-manager.js\<close>, and the two \<open>TokenStorage\<close> classes. Network answers,
  the clock and the fate of file writes are inputs of the functions; outbound requests
  are recorded in the state, so that "how many requests went out" is a statement about a
  value. Promises are modelled by what they settle to; a step of the cooperative
  scheduler is a function from state to state.
\<close>

section \<open>Strings, URI encoding and query-string serialisation\<close>

text \<open>
  JavaScript strings are modelled as \<^typ>\<open>string\<close>, read as the UTF-8 bytes of the text:
  \<open>encodeURIComponent\<close> and \<open>URLSearchParams\<close> both work on the UTF-8 encoding, one
  byte at a time. A JavaScript value used as a condition is true for a string exactly
  when the string is defined and not empty.
\<close>

definition truthy :: "string option \<Rightarrow> bool" where
  "truthy v = (case v of None \<Rightarrow> False | Some s \<Rightarrow> s \<noteq> [])"

fun startsWith :: "string \<Rightarrow> string \<Rightarrow> bool" where
  "startsWith s [] = True"
| "startsWith [] (p # ps) = False"
| "startsWith (c # cs) (p # ps) = (c = p \<and> startsWith cs ps)"

text \<open>\<open>s.split(sep)\<close> for a one-character separator: never empty, \<open>''''\<close> gives \<open>['''']\<close>.\<close>

fun split_on :: "char \<Rightarrow> string \<Rightarrow> string list" where
  "split_on sep [] = [[]]"
| "split_on sep (c # cs) =
     (if c = sep then [] # split_on sep cs
      else (case split_on sep cs of
              [] \<Rightarrow> [[c]]
            | w # ws \<Rightarrow> (c # w) # ws))"

text \<open>\<open>xs.join(sep)\<close>.\<close>

fun join :: "string \<Rightarrow> string list \<Rightarrow> string" where
  "join sep [] = []"
| "join sep [w] = w"
| "join sep (w # v # ws) = w @ sep @ join sep (v # ws)"

definition hex_digit :: "nat \<Rightarrow> char" where
  "hex_digit n = (if n < 10 then char_of (48 + n) else char_of (55 + n))"

definition pct :: "char \<Rightarrow> string" where
  "pct c = [CHR ''%'', hex_digit (of_char c div 16), hex_digit (of_char c mod 16)]"

definition alnum :: "char \<Rightarrow> bool" where
  "alnum c = (let n = (of_char c :: nat) in
     (48 \<le> n \<and> n \<le> 57) \<or> (65 \<le> n \<and> n \<le> 90) \<or> (97 \<le> n \<and> n \<le> 122))"

text \<open>
  \<open>encodeURIComponent\<close> leaves the letters, the digits and \<open>- _ . ! ~ * ' ( )\<close> as they
  are and writes every other byte as \<open>%XX\<close> with upper-case hexadecimal digits.
\<close>

definition uri_unreserved :: "char \<Rightarrow> bool" where
  "uri_unreserved c = (alnum c \<or> c \<in> set ''-_.!~*'' \<or> c = CHR 0x27 \<or> c \<in> set ''()'')"

definition encodeURIComponent :: "string \<Rightarrow> string" where
  "encodeURIComponent s = concat (map (\<lambda>c. if uri_unreserved c then [c] else pct c) s)"

text \<open>
  \<open>URLSearchParams.prototype.toString\<close>: the \<open>application/x-www-form-urlencoded\<close>
  serialiser. Letters, digits and \<open>* - . _\<close> stay, a space becomes \<open>+\<close>, every other byte
  is written as \<open>%XX\<close>; the pairs are written \<open>name=value\<close> and joined by \<open>&\<close>.
\<close>

definition form_safe :: "char \<Rightarrow> bool" where
  "form_safe c = (alnum c \<or> c \<in> set ''*-._'')"

definition form_encode :: "string \<Rightarrow> string" where
  "form_encode s = concat (map (\<lambda>c. if form_safe c then [c]
                                     else if c = CHR '' '' then ''+'' else pct c) s)"

definition URLSearchParams_toString :: "(string \<times> string) list \<Rightarrow> string" where
  "URLSearchParams_toString ps =
     join ''&'' (map (\<lambda>(k, v). form_encode k @ ''='' @ form_encode v) ps)"

section \<open>The Graph API client of \<open>utils/graph-api.js\<close>\<close>

text \<open>
  A query-parameter object is a list of name/value pairs in insertion order, without
  repeated names. \<open>URLSearchParams.append\<close> turns every value into a string, so a value
  is kept as the string it is appended as.
\<close>

type_synonym params = "(string \<times> string) list"

definition delete_key :: "string \<Rightarrow> params \<Rightarrow> params" where
  "delete_key k ps = filter (\<lambda>p. fst p \<noteq> k) ps"

text \<open>
  One page of the remote API: \<open>page_items\<close> is \<open>response.value\<close> when that is an array
  (\<open>None\<close> when the field is missing or not an array), \<open>nextLink\<close> is
  \<open>response['@odata.nextLink']\<close>.
\<close>

record 'a page =
  page_items :: "'a list option"
  nextLink :: "string option"

record http_request =
  req_verb :: string
  req_url :: string
  req_bearer :: string
  req_body :: "string option"

text \<open>What the transport hands back: a network error, or a status code with the raw body.\<close>

datatype http_reply = NetworkError string | Response int string

text \<open>
  The remote side may answer the same request differently each time, so a server is a
  function of the exchanges so far and of the request. The trace of exchanges is the
  record of every outbound call.
\<close>

type_synonym trace = "(http_request \<times> http_reply) list"
type_synonym server = "trace \<Rightarrow> http_request \<Rightarrow> http_reply"

datatype graph_error =
    PaginationOnlyGET
  | ParseFailure
  | UNAUTHORIZED
  | ApiCallFailed int string
  | NetworkFailure string

text \<open>
  What the client takes from its surroundings: the test-mode flag, which \<open>config.js\<close>
  reads from the process environment, \<open>JSON.parse\<close> on a response body (\<open>None\<close> when
  it throws), and the test-mode simulator \<open>mockData.simulateGraphAPIResponse\<close>, whose
  module is not part of the sources and is therefore a parameter.
\<close>

record 'a config =
  USE_TEST_MODE :: bool
  JSON_parse :: "string \<Rightarrow> 'a page option"
  simulateGraphAPIResponse :: "string \<Rightarrow> string \<Rightarrow> string option \<Rightarrow> params \<Rightarrow> 'a page"

text \<open>The constants of \<open>config.js\<close> that the client reads.\<close>

definition GRAPH_API_ENDPOINT :: string where
  "GRAPH_API_ENDPOINT = ''https://graph.microsoft.com/v1.0/''"

definition MAX_PAGINATION_PAGES :: nat where
  "MAX_PAGINATION_PAGES = 100"

text \<open>Lines 36-38: every segment of the path is encoded on its own.\<close>

definition encodePath :: "string \<Rightarrow> string" where
  "encodePath path = join ''/'' (map encodeURIComponent (split_on CHR ''/'' path))"

text \<open>
  Lines 41-71 of \<open>callGraphAPI\<close>: the query string, and the caller's parameter object as
  the function leaves it (\<open>delete queryParams.$filter\<close> acts on the caller's object).
\<close>

definition buildQueryString :: "params \<Rightarrow> string \<times> params" where
  "buildQueryString queryParams =
     (if queryParams \<noteq> [] then
        let filter_v = map_of queryParams ''$filter'';
            queryParams1 = (if truthy filter_v then delete_key ''$filter'' queryParams
                            else queryParams);
            queryString = URLSearchParams_toString queryParams1;
            queryString1 =
              (if truthy filter_v then
                 (if queryString \<noteq> []
                  then queryString @ ''&$filter='' @ encodeURIComponent (the filter_v)
                  else ''$filter='' @ encodeURIComponent (the filter_v))
               else queryString);
            queryString2 = (if queryString1 \<noteq> [] then ''?'' @ queryString1 else queryString1)
        in (queryString2, queryParams1)
      else ([], queryParams))"

text \<open>Lines 27-75: the final URL and the parameter object afterwards.\<close>

definition buildUrl :: "string \<Rightarrow> params \<Rightarrow> string \<times> params" where
  "buildUrl path queryParams =
     (if startsWith path ''http://'' \<or> startsWith path ''https://''
      then (path, queryParams)
      else (let (queryString, queryParams1) = buildQueryString queryParams
            in (GRAPH_API_ENDPOINT @ encodePath path @ queryString, queryParams1)))"

text \<open>Lines 93-108 and 111-113: what the promise settles to for a reply.\<close>

definition handleReply :: "'a config \<Rightarrow> http_reply \<Rightarrow> graph_error + 'a page" where
  "handleReply cfg r =
     (case r of
        NetworkError msg \<Rightarrow> Inl (NetworkFailure msg)
      | Response statusCode responseData \<Rightarrow>
          if 200 \<le> statusCode \<and> statusCode < 300 then
            (case JSON_parse cfg (if responseData \<noteq> [] then responseData else ''{}'') of
               None \<Rightarrow> Inl ParseFailure
             | Some jsonResponse \<Rightarrow> Inr jsonResponse)
          else if statusCode = 401 then Inl UNAUTHORIZED
          else Inl (ApiCallFailed statusCode responseData))"

definition wantsBody :: "string \<Rightarrow> string option \<Rightarrow> bool" where
  "wantsBody verb payload =
     (truthy payload \<and> (verb = ''POST'' \<or> verb = ''PATCH'' \<or> verb = ''PUT''))"

text \<open>
  \<open>callGraphAPI\<close>: the result, the caller's parameter object after the call and the
  trace with the exchange added.
\<close>

definition callGraphAPI ::
  "'a config \<Rightarrow> server \<Rightarrow> trace \<Rightarrow> string \<Rightarrow> string \<Rightarrow> string \<Rightarrow> string option \<Rightarrow> params
   \<Rightarrow> (graph_error + 'a page) \<times> params \<times> trace" where
  "callGraphAPI cfg srv tr accessToken verb path payload queryParams =
     (if USE_TEST_MODE cfg \<and> startsWith accessToken ''test_access_token_''
      then (Inr (simulateGraphAPIResponse cfg verb path payload queryParams), queryParams, tr)
      else
        let (finalUrl, queryParams1) = buildUrl path queryParams;
            req = \<lparr>req_verb = verb, req_url = finalUrl, req_bearer = accessToken,
                   req_body = (if wantsBody verb payload then payload else None)\<rparr>;
            reply = srv tr req
        in (handleReply cfg reply, queryParams1, tr @ [(req, reply)]))"

text \<open>The aggregated result: \<open>value\<close> and \<open>'@odata.count'\<close>.\<close>

record 'a aggregated =
  result_items :: "'a list"
  odata_count :: nat

definition items_of :: "'a page \<Rightarrow> 'a list" where
  "items_of response = (case page_items response of None \<Rightarrow> [] | Some v \<Rightarrow> v)"

text \<open>Lines 174-182: trimming to the requested count and building the result.\<close>

definition finish :: "int \<Rightarrow> 'a list \<Rightarrow> 'a aggregated" where
  "finish maxCount allItems =
     (let finalItems = (if maxCount > 0 then take (nat maxCount) allItems else allItems)
      in \<lparr>result_items = finalItems, odata_count = length finalItems\<rparr>)"

text \<open>
  The \<open>do ... while (nextLink)\<close> loop of lines 147-172. Nothing bounds the number of
  rounds, so the loop is a partial function: \<open>None\<close> is a loop that never ends.
\<close>

partial_function (option) paginate ::
  "'a config \<Rightarrow> server \<Rightarrow> string \<Rightarrow> int \<Rightarrow> 'a list \<Rightarrow> string \<Rightarrow> params \<Rightarrow> trace
   \<Rightarrow> ((graph_error + 'a list) \<times> trace) option" where
  "paginate cfg srv accessToken maxCount allItems currentUrl currentParams tr =
     (case callGraphAPI cfg srv tr accessToken ''GET'' currentUrl None currentParams of
        (Inl e, _, tr1) \<Rightarrow> Some (Inl e, tr1)
      | (Inr response, _, tr1) \<Rightarrow>
          let allItems1 = allItems @ items_of response in
          if maxCount > 0 \<and> int (length allItems1) \<ge> maxCount then Some (Inr allItems1, tr1)
          else if truthy (nextLink response)
               then paginate cfg srv accessToken maxCount allItems1 (the (nextLink response)) [] tr1
               else Some (Inr allItems1, tr1))"

declare paginate.simps [code]

definition callGraphAPIPaginated ::
  "'a config \<Rightarrow> server \<Rightarrow> trace \<Rightarrow> string \<Rightarrow> string \<Rightarrow> string \<Rightarrow> params \<Rightarrow> int
   \<Rightarrow> ((graph_error + 'a aggregated) \<times> trace) option" where
  "callGraphAPIPaginated cfg srv tr accessToken verb path queryParams maxCount =
     (if verb \<noteq> ''GET'' then Some (Inl PaginationOnlyGET, tr)
      else (case paginate cfg srv accessToken maxCount [] path queryParams tr of
              None \<Rightarrow> None
            | Some (Inl e, tr1) \<Rightarrow> Some (Inl e, tr1)
            | Some (Inr allItems, tr1) \<Rightarrow> Some (Inr (finish maxCount allItems), tr1)))"

section \<open>The Graph API client of the second variant (with the page ceiling)\<close>

text \<open>
  The repository holds a second version of the same module. Its \<open>callGraphAPI\<close> accepts
  a query string inside the path and does not change the caller's parameter object;
  its \<open>callGraphAPIPaginated\<close> counts pages against \<open>config.MAX_PAGINATION_PAGES\<close>.
\<close>

definition hex_val :: "char \<Rightarrow> nat option" where
  "hex_val c = (let n = (of_char c :: nat) in
     if 48 \<le> n \<and> n \<le> 57 then Some (n - 48)
     else if 65 \<le> n \<and> n \<le> 70 then Some (n - 55)
     else if 97 \<le> n \<and> n \<le> 102 then Some (n - 87)
     else None)"

text \<open>
  The percent-decoding of the \<open>URLSearchParams\<close> parser: a \<open>%\<close> that is not followed by
  two hexadecimal digits stays as it is. (The platform then reads the bytes as UTF-8 and
  replaces malformed sequences; the model keeps the bytes.)
\<close>

fun percent_decode :: "string \<Rightarrow> string" where
  "percent_decode (c # h # l # rest) =
     (if c = CHR ''%'' \<and> hex_val h \<noteq> None \<and> hex_val l \<noteq> None
      then char_of (16 * the (hex_val h) + the (hex_val l)) # percent_decode rest
      else c # percent_decode (h # l # rest))"
| "percent_decode (c # cs) = c # percent_decode cs"
| "percent_decode [] = []"

definition plus_to_space :: "string \<Rightarrow> string" where
  "plus_to_space s = map (\<lambda>c. if c = CHR ''+'' then CHR '' '' else c) s"

text \<open>
  \<open>new URLSearchParams(init)\<close> for a string: a leading \<open>?\<close> is dropped, the string is cut
  at every \<open>&\<close>, empty pieces are skipped, each piece is cut at its first \<open>=\<close>, and name
  and value are decoded.
\<close>

definition URLSearchParams_parse :: "string \<Rightarrow> params" where
  "URLSearchParams_parse init =
     (let s = (case init of c # cs \<Rightarrow> if c = CHR ''?'' then cs else init | [] \<Rightarrow> [])
      in map (\<lambda>piece. (percent_decode (plus_to_space (takeWhile (\<lambda>c. c \<noteq> CHR ''='') piece)),
                        percent_decode (plus_to_space (drop 1 (dropWhile (\<lambda>c. c \<noteq> CHR ''='') piece)))))
             (filter (\<lambda>piece. piece \<noteq> []) (split_on CHR ''&'' s)))"

text \<open>
  Lines 36-56: \<open>const [rawPath, rawQuery] = path.split('?')\<close> keeps the first two pieces;
  a \<open>$filter\<close> found in the path's query string is remembered as already encoded.
\<close>

definition rawPath_of :: "string \<Rightarrow> string" where
  "rawPath_of path = (case split_on CHR ''?'' path of [] \<Rightarrow> [] | p # _ \<Rightarrow> p)"

definition rawQuery_of :: "string \<Rightarrow> string option" where
  "rawQuery_of path = (case split_on CHR ''?'' path of _ # q # _ \<Rightarrow> Some q | _ \<Rightarrow> None)"

text \<open>
  Lines 41-83. The triple is \<open>params\<close>, \<open>filter\<close> (\<open>None\<close> is \<open>undefined\<close>) and
  \<open>filterPreEncoded\<close> after the two passes; then the query string.
\<close>

fun scanExisting :: "params \<Rightarrow> params \<times> string option \<times> bool \<Rightarrow> params \<times> string option \<times> bool" where
  "scanExisting [] acc = acc"
| "scanExisting ((key, v) # rest) (ps, filter_v, pre) =
     (if key = ''$filter'' then scanExisting rest (ps, Some v, True)
      else scanExisting rest (ps @ [(key, v)], filter_v, pre))"

definition buildQueryString_v2 :: "string option \<Rightarrow> params \<Rightarrow> string" where
  "buildQueryString_v2 rawQuery queryParams =
     (let (ps0, filter0, pre0) =
            (if truthy rawQuery
             then scanExisting (URLSearchParams_parse (the rawQuery)) ([], None, False)
             else ([], None, False));
          (ps1, filter1, pre1) =
            (if queryParams \<noteq> [] then
               (ps0 @ delete_key ''$filter'' queryParams,
                (case map_of queryParams ''$filter'' of None \<Rightarrow> filter0 | Some f \<Rightarrow> Some f),
                (case map_of queryParams ''$filter'' of None \<Rightarrow> pre0 | Some f \<Rightarrow> False))
             else (ps0, filter0, pre0));
          queryString = URLSearchParams_toString ps1;
          queryString1 = (if queryString \<noteq> [] then ''?'' @ queryString else queryString)
      in (case filter1 of
            None \<Rightarrow> queryString1
          | Some filter_v \<Rightarrow>
              queryString1 @ (if queryString1 \<noteq> [] then ''&'' else ''?'') @ ''$filter=''
                @ (if pre1 then filter_v else encodeURIComponent filter_v)))"

definition buildUrl_v2 :: "string \<Rightarrow> params \<Rightarrow> string" where
  "buildUrl_v2 path queryParams =
     (if startsWith path ''http://'' \<or> startsWith path ''https://''
      then path
      else GRAPH_API_ENDPOINT @ encodePath (rawPath_of path)
             @ buildQueryString_v2 (rawQuery_of path) queryParams)"

definition callGraphAPI_v2 ::
  "'a config \<Rightarrow> server \<Rightarrow> trace \<Rightarrow> string \<Rightarrow> string \<Rightarrow> string \<Rightarrow> string option \<Rightarrow> params
   \<Rightarrow> (graph_error + 'a page) \<times> trace" where
  "callGraphAPI_v2 cfg srv tr accessToken verb path payload queryParams =
     (if USE_TEST_MODE cfg \<and> startsWith accessToken ''test_access_token_''
      then (Inr (simulateGraphAPIResponse cfg verb path payload queryParams), tr)
      else
        let req = \<lparr>req_verb = verb, req_url = buildUrl_v2 path queryParams,
                   req_bearer = accessToken,
                   req_body = (if wantsBody verb payload then payload else None)\<rparr>;
            reply = srv tr req
        in (handleReply cfg reply, tr @ [(req, reply)]))"

text \<open>
  The loop of lines 159-192: \<open>pageCount\<close> is raised first and compared with the ceiling
  before anything is fetched, then come the count check and the cursor check.
\<close>

function paginate_v2 ::
  "'a config \<Rightarrow> server \<Rightarrow> string \<Rightarrow> int \<Rightarrow> 'a list \<Rightarrow> string \<Rightarrow> params \<Rightarrow> nat \<Rightarrow> trace
   \<Rightarrow> (graph_error + 'a list) \<times> trace" where
  "paginate_v2 cfg srv accessToken maxCount allItems currentUrl currentParams pageCount tr =
     (if Suc pageCount > MAX_PAGINATION_PAGES then (Inr allItems, tr)
      else
        (case callGraphAPI_v2 cfg srv tr accessToken ''GET'' currentUrl None currentParams of
           (Inl e, tr1) \<Rightarrow> (Inl e, tr1)
         | (Inr response, tr1) \<Rightarrow>
             if maxCount > 0 \<and> int (length (allItems @ items_of response)) \<ge> maxCount
             then (Inr (allItems @ items_of response), tr1)
             else if truthy (nextLink response)
                  then paginate_v2 cfg srv accessToken maxCount (allItems @ items_of response)
                         (the (nextLink response)) [] (Suc pageCount) tr1
                  else (Inr (allItems @ items_of response), tr1)))"
  by pat_completeness auto
termination
  by (relation "measure (\<lambda>(cfg, srv, accessToken, maxCount, allItems, currentUrl,
                           currentParams, pageCount, tr). MAX_PAGINATION_PAGES - pageCount)")
     auto

declare paginate_v2.simps [simp del]

definition callGraphAPIPaginated_v2 ::
  "'a config \<Rightarrow> server \<Rightarrow> trace \<Rightarrow> string \<Rightarrow> string \<Rightarrow> string \<Rightarrow> params \<Rightarrow> int
   \<Rightarrow> (graph_error + 'a aggregated) \<times> trace" where
  "callGraphAPIPaginated_v2 cfg srv tr accessToken verb path queryParams maxCount =
     (if verb \<noteq> ''GET'' then (Inl PaginationOnlyGET, tr)
      else (case paginate_v2 cfg srv accessToken maxCount [] path queryParams 0 tr of
              (Inl e, tr1) \<Rightarrow> (Inl e, tr1)
            | (Inr allItems, tr1) \<Rightarrow> (Inr (finish maxCount allItems), tr1)))"

subsection \<open>Vocabulary for the pagination properties\<close>

text \<open>The call goes to the network, not to the test-mode simulator.\<close>

definition real_call :: "'a config \<Rightarrow> string \<Rightarrow> bool" where
  "real_call cfg accessToken =
     (\<not> (USE_TEST_MODE cfg \<and> startsWith accessToken ''test_access_token_''))"

text \<open>The request \<open>callGraphAPI\<close> sends for a page, in either variant.\<close>

definition page_request :: "string \<Rightarrow> string \<Rightarrow> params \<Rightarrow> http_request" where
  "page_request accessToken currentUrl currentParams =
     \<lparr>req_verb = ''GET'', req_url = fst (buildUrl currentUrl currentParams),
      req_bearer = accessToken, req_body = None\<rparr>"

definition page_request_v2 :: "string \<Rightarrow> string \<Rightarrow> params \<Rightarrow> http_request" where
  "page_request_v2 accessToken currentUrl currentParams =
     \<lparr>req_verb = ''GET'', req_url = buildUrl_v2 currentUrl currentParams,
      req_bearer = accessToken, req_body = None\<rparr>"

text \<open>The items of the pages that a stretch of the trace delivered, in order.\<close>

definition fetched_items :: "'a config \<Rightarrow> trace \<Rightarrow> 'a list" where
  "fetched_items cfg t =
     concat (map (\<lambda>(req, reply). case handleReply cfg reply of
                                     Inl e \<Rightarrow> [] | Inr pg \<Rightarrow> items_of pg) t)"

text \<open>Every answer of the server is a page that carries a continuation cursor.\<close>

definition always_more :: "'a config \<Rightarrow> server \<Rightarrow> bool" where
  "always_more cfg srv =
     (\<forall>tr req. \<exists>pg. handleReply cfg (srv tr req) = Inr pg \<and> truthy (nextLink pg))"


text \<open>
  A remote API whose cursor loops: every page holds one message and points back to the
  same address.
\<close>

definition looping_config :: "string config" where
  "looping_config =
     \<lparr>USE_TEST_MODE = False,
      JSON_parse = (\<lambda>body. Some \<lparr>page_items = Some [''message''],
                                  nextLink = Some ''https://graph.microsoft.com/v1.0/me/messages?$skip=0''\<rparr>),
      simulateGraphAPIResponse = (\<lambda>verb path payload ps. \<lparr>page_items = None, nextLink = None\<rparr>)\<rparr>"

definition looping_server :: server where
  "looping_server tr req = Response 200 ''{}''"



section \<open>Token management of \<open>auth/token-manager.js\<close>\<close>

text \<open>
  A stored token object. Every field may be missing; \<open>expires_at\<close> is in milliseconds
  since the epoch, as \<open>Date.now()\<close> counts them.
\<close>

record token_set =
  access_token :: "string option"
  refresh_token :: "string option"
  expires_in :: "int option"
  expires_at :: "int option"
  scope :: "string option"
  token_type :: "string option"

text \<open>
  The token file: missing, present but unreadable or not JSON, or holding a document.
\<close>

datatype 'd token_file = NoFile | Unreadable | Stored 'd

text \<open>
  The body of a token-endpoint response after \<open>JSON.parse\<close>:
  \<open>{access_token, refresh_token?, expires_in}\<close>.
\<close>

record token_response =
  resp_access_token :: string
  resp_refresh_token :: "string option"
  resp_expires_in :: int

text \<open>
  What comes back from the token endpoint: the request's \<open>error\<close> event, or a status
  code with the parsed body (\<open>None\<close> when \<open>JSON.parse\<close> throws).
\<close>

datatype endpoint_reply = EndpointError | EndpointResponse int "token_response option"

text \<open>
  The in-flight refresh that \<open>refreshPromise\<close> holds: the callers waiting for it. A caller
  is named by a number.
\<close>

record pending_refresh =
  waiters :: "nat list"

text \<open>
  The module's state and its surroundings: the two module variables, the token file, the
  refresh tokens posted to the token endpoint (one entry for each outbound request), and
  what the promise of each finished call resolved to (\<open>None\<close> is \<open>null\<close>).
  The \<open>tokens\<close> object that the response handler of \<open>refreshAccessToken\<close> changes is the
  object \<open>cachedTokens\<close> refers to, so changing it changes \<open>cachedTokens\<close>.
\<close>

record tm_state =
  cachedTokens :: "token_set option"
  refreshPromise :: "pending_refresh option"
  tokenFile :: "token_set token_file"
  endpoint_requests :: "string list"
  resolved :: "(nat \<times> string option) list"

text \<open>\<open>loadTokenCache\<close> (lines 17-66).\<close>

definition loadTokenCache :: "tm_state \<Rightarrow> token_set option \<times> tm_state" where
  "loadTokenCache s =
     (case tokenFile s of
        NoFile \<Rightarrow> (None, s)
      | Unreadable \<Rightarrow> (None, s)
      | Stored tokens \<Rightarrow>
          if \<not> truthy (access_token tokens) then (None, s)
          else (Some tokens, s\<lparr>cachedTokens := Some tokens\<rparr>))"

text \<open>\<open>saveTokenCache\<close> (lines 73-88); \<open>write_ok\<close> says whether \<open>writeFileSync\<close> succeeds.\<close>

definition saveTokenCache :: "bool \<Rightarrow> token_set \<Rightarrow> tm_state \<Rightarrow> bool \<times> tm_state" where
  "saveTokenCache write_ok tokens s =
     (if write_ok then (True, s\<lparr>tokenFile := Stored tokens, cachedTokens := Some tokens\<rparr>)
      else (False, s))"

text \<open>
  \<open>refreshAccessToken\<close>, lines 94-177: what one invocation does before it returns its
  promise. Nothing in it waits, so it runs as one step.
\<close>

definition refreshAccessToken_call :: "nat \<Rightarrow> tm_state \<Rightarrow> tm_state" where
  "refreshAccessToken_call caller s =
     (case refreshPromise s of
        Some p \<Rightarrow> s\<lparr>refreshPromise := Some (p\<lparr>waiters := waiters p @ [caller]\<rparr>)\<rparr>
      | None \<Rightarrow>
          let (tokens, s1) = (case cachedTokens s of
                                Some t \<Rightarrow> (Some t, s)
                              | None \<Rightarrow> loadTokenCache s)
          in (case tokens of
                None \<Rightarrow> s1\<lparr>resolved := resolved s1 @ [(caller, None)]\<rparr>
              | Some t \<Rightarrow>
                  if \<not> truthy (refresh_token t)
                  then s1\<lparr>resolved := resolved s1 @ [(caller, None)]\<rparr>
                  else s1\<lparr>endpoint_requests := endpoint_requests s1 @ [the (refresh_token t)],
                          refreshPromise := Some \<lparr>waiters = [caller]\<rparr>\<rparr>))"

text \<open>
  Lines 136-144: the token object after a successful response, at time \<open>now\<close>.
\<close>

definition updateTokens :: "token_response \<Rightarrow> int \<Rightarrow> token_set \<Rightarrow> token_set" where
  "updateTokens responseBody now tokens =
     tokens\<lparr>access_token := Some (resp_access_token responseBody),
            refresh_token := (if truthy (resp_refresh_token responseBody)
                              then resp_refresh_token responseBody
                              else refresh_token tokens),
            expires_in := Some (resp_expires_in responseBody),
            expires_at := Some (now + resp_expires_in responseBody * 1000)\<rparr>"

text \<open>
  The handlers of lines 130-171: the response's \<open>end\<close> event or the request's \<open>error\<close>
  event. The pair is what the promise resolves to and the state before the slot is
  cleared.
\<close>

definition refresh_outcome ::
  "endpoint_reply \<Rightarrow> int \<Rightarrow> bool \<Rightarrow> tm_state \<Rightarrow> string option \<times> tm_state" where
  "refresh_outcome reply now write_ok s =
     (case reply of
        EndpointError \<Rightarrow> (None, s)
      | EndpointResponse statusCode body \<Rightarrow>
          (case body of
             None \<Rightarrow> (None, s)
           | Some responseBody \<Rightarrow>
               if 200 \<le> statusCode \<and> statusCode < 300 then
                 (case cachedTokens s of
                    None \<Rightarrow> (None, s)
                  | Some old \<Rightarrow>
                      let tokens = updateTokens responseBody now old;
                          s1 = s\<lparr>cachedTokens := Some tokens\<rparr>
                      in (case saveTokenCache write_ok tokens s1 of
                            (True, s2) \<Rightarrow> (access_token tokens, s2)
                          | (False, s2) \<Rightarrow> (None, s2)))
               else (None, s)))"

definition refresh_settle :: "endpoint_reply \<Rightarrow> int \<Rightarrow> bool \<Rightarrow> tm_state \<Rightarrow> tm_state" where
  "refresh_settle reply now write_ok s =
     (case refreshPromise s of
        None \<Rightarrow> s
      | Some p \<Rightarrow>
          let (result, s1) = refresh_outcome reply now write_ok s
          in s1\<lparr>refreshPromise := None,
                resolved := resolved s1 @ map (\<lambda>caller. (caller, result)) (waiters p)\<rparr>)"

definition refreshBuffer :: int where
  "refreshBuffer = 5 * 60 * 1000"

text \<open>
  \<open>getAccessToken\<close>, lines 184-209, up to the point where it either has its answer or
  waits for \<open>refreshAccessToken\<close>.
\<close>

definition getAccessToken_call :: "nat \<Rightarrow> int \<Rightarrow> tm_state \<Rightarrow> tm_state" where
  "getAccessToken_call caller now s =
     (let (loaded, s1) = (case cachedTokens s of
                            Some t \<Rightarrow> (True, s)
                          | None \<Rightarrow> (case loadTokenCache s of (tokens, s') \<Rightarrow> (tokens \<noteq> None, s')))
      in if \<not> loaded then s1\<lparr>resolved := resolved s1 @ [(caller, None)]\<rparr>
         else (case cachedTokens s1 of
                 None \<Rightarrow> s1\<lparr>resolved := resolved s1 @ [(caller, None)]\<rparr>
               | Some t \<Rightarrow>
                   let expiresAt = (case expires_at t of None \<Rightarrow> 0 | Some e \<Rightarrow> e)
                   in if now \<ge> expiresAt - refreshBuffer
                      then refreshAccessToken_call caller s1
                      else s1\<lparr>resolved := resolved s1 @ [(caller, access_token t)]\<rparr>))"




text \<open>
  One call that runs alone: the invocation, then the answer of the token endpoint if a
  request went out. The result is what the caller's promise resolved to.
\<close>

definition result_of :: "nat \<Rightarrow> (nat \<times> string option) list \<Rightarrow> string option" where
  "result_of caller rs = (case map_of rs caller of None \<Rightarrow> None | Some r \<Rightarrow> r)"

definition refreshAccessToken ::
  "endpoint_reply \<Rightarrow> int \<Rightarrow> bool \<Rightarrow> tm_state \<Rightarrow> string option \<times> tm_state" where
  "refreshAccessToken reply now write_ok s =
     (let s1 = refresh_settle reply now write_ok (refreshAccessToken_call 0 (s\<lparr>resolved := []\<rparr>))
      in (result_of 0 (resolved s1), s1))"

definition getAccessToken ::
  "int \<Rightarrow> endpoint_reply \<Rightarrow> int \<Rightarrow> bool \<Rightarrow> tm_state \<Rightarrow> string option \<times> tm_state" where
  "getAccessToken now reply now_reply write_ok s =
     (let s1 = refresh_settle reply now_reply write_ok
                 (getAccessToken_call 0 now (s\<lparr>resolved := []\<rparr>))
      in (result_of 0 (resolved s1), s1))"

section \<open>The multi-account \<open>TokenStorage\<close> class\<close>

text \<open>
  The first \<open>TokenStorage\<close> class of the repository keeps in \<open>this.tokens\<close> the whole
  stored document: either the fields of one token object (the old format), or an
  \<open>accounts\<close> object and the name of the active account.
\<close>

record token_doc = token_set +
  accounts :: "(string \<times> token_set) list option"
  activeAccount :: "string option"

datatype refresh_error =
    NoRefreshToken
  | RefreshNetworkError
  | BadRefreshResponse
  | RefreshRejected int
  | RefreshedButNotSaved

text \<open>
  The in-flight refresh held by \<open>this._refreshPromise\<close>: the callers waiting for it and,
  once the response handler has started \<open>_saveTokensToFile\<close>, the document being written.
\<close>

record ts_pending =
  ts_waiters :: "nat list"
  writing :: "token_doc option"

text \<open>
  The object's fields and its surroundings. \<open>refresh_invocations\<close> counts the entries into
  \<open>refreshAccessToken\<close>; \<open>token_requests\<close> lists the refresh tokens posted to the token
  endpoint; \<open>settled\<close> is what each finished refresh call resolved to or was rejected
  with.
\<close>

record ts_state =
  this_tokens :: "token_doc option"
  this_refreshPromise :: "ts_pending option"
  stored_file :: "token_doc token_file"
  token_requests :: "string list"
  settled :: "(nat \<times> (refresh_error + string option)) list"
  refresh_invocations :: nat

definition refreshTokenBuffer :: int where
  "refreshTokenBuffer = 5 * 60 * 1000"

text \<open>\<open>_loadTokensFromFile\<close> (lines 71-86).\<close>

definition loadTokensFromFile :: "ts_state \<Rightarrow> token_doc option \<times> ts_state" where
  "loadTokensFromFile s =
     (case stored_file s of
        Stored d \<Rightarrow> (Some d, s\<lparr>this_tokens := Some d\<rparr>)
      | _ \<Rightarrow> (None, s\<lparr>this_tokens := None\<rparr>))"

text \<open>
  \<open>_saveTokensToFile\<close> (lines 88-101): returns \<open>false\<close> without writing when there are no
  tokens, throws when the write fails.
\<close>

datatype save_result = NothingToSave | Saved | SaveThrew

definition saveTokensToFile :: "bool \<Rightarrow> ts_state \<Rightarrow> save_result \<times> ts_state" where
  "saveTokensToFile write_ok s =
     (case this_tokens s of
        None \<Rightarrow> (NothingToSave, s)
      | Some d \<Rightarrow> if write_ok then (Saved, s\<lparr>stored_file := Stored d\<rparr>) else (SaveThrew, s))"

text \<open>\<open>getTokens\<close> (lines 103-113), for a caller that runs alone.\<close>

definition getTokens :: "ts_state \<Rightarrow> token_doc option \<times> ts_state" where
  "getTokens s = (case this_tokens s of Some d \<Rightarrow> (Some d, s) | None \<Rightarrow> loadTokensFromFile s)"

text \<open>\<open>getAllAccounts\<close> (lines 116-131).\<close>

definition getAllAccounts :: "ts_state \<Rightarrow> string list \<times> ts_state" where
  "getAllAccounts s =
     (case getTokens s of
        (None, s1) \<Rightarrow> ([], s1)
      | (Some allTokens, s1) \<Rightarrow>
          (case accounts allTokens of
             Some acc \<Rightarrow> (map fst acc, s1)
           | None \<Rightarrow> if truthy (access_token allTokens) then ([''default''], s1) else ([], s1)))"

text \<open>\<open>isTokenExpired\<close> (lines 157-163).\<close>

definition isTokenExpired :: "int \<Rightarrow> ts_state \<Rightarrow> bool" where
  "isTokenExpired now s =
     (case this_tokens s of
        None \<Rightarrow> True
      | Some d \<Rightarrow> (case expires_at d of
                     None \<Rightarrow> True
                   | Some e \<Rightarrow> e = 0 \<or> now \<ge> e - refreshTokenBuffer))"

text \<open>
  \<open>refreshAccessToken\<close> (lines 234-311) in its three steps: the invocation, which runs
  without waiting up to the returned promise; the response handler up to its
  \<open>await this._saveTokensToFile()\<close>; and the rest of the handler once the write is over.
\<close>

definition TokenStorage_refresh_call :: "nat \<Rightarrow> ts_state \<Rightarrow> ts_state" where
  "TokenStorage_refresh_call caller s0 =
     (let s = s0\<lparr>refresh_invocations := Suc (refresh_invocations s0)\<rparr>
      in case this_tokens s of
           None \<Rightarrow> s\<lparr>settled := settled s @ [(caller, Inl NoRefreshToken)]\<rparr>
         | Some d \<Rightarrow>
             if \<not> truthy (refresh_token d)
             then s\<lparr>settled := settled s @ [(caller, Inl NoRefreshToken)]\<rparr>
             else (case this_refreshPromise s of
                     Some p \<Rightarrow> s\<lparr>this_refreshPromise := Some (p\<lparr>ts_waiters := ts_waiters p @ [caller]\<rparr>)\<rparr>
                   | None \<Rightarrow>
                       s\<lparr>token_requests := token_requests s @ [the (refresh_token d)],
                         this_refreshPromise := Some \<lparr>ts_waiters = [caller], writing = None\<rparr>\<rparr>))"

text \<open>Lines 270-276: the document after a successful response, at time \<open>now\<close>.\<close>

definition refreshedTokens :: "token_response \<Rightarrow> int \<Rightarrow> token_doc \<Rightarrow> token_doc" where
  "refreshedTokens responseBody now d =
     d\<lparr>access_token := Some (resp_access_token responseBody),
       refresh_token := (if truthy (resp_refresh_token responseBody)
                         then resp_refresh_token responseBody
                         else refresh_token d),
       expires_in := Some (resp_expires_in responseBody),
       expires_at := Some (now + resp_expires_in responseBody * 1000)\<rparr>"

definition reject_all :: "refresh_error \<Rightarrow> ts_pending \<Rightarrow> ts_state \<Rightarrow> ts_state" where
  "reject_all e p s =
     s\<lparr>this_refreshPromise := None,
       settled := settled s @ map (\<lambda>caller. (caller, Inl e)) (ts_waiters p)\<rparr>"

definition TokenStorage_refresh_end :: "endpoint_reply \<Rightarrow> int \<Rightarrow> ts_state \<Rightarrow> ts_state" where
  "TokenStorage_refresh_end reply now s =
     (case this_refreshPromise s of
        None \<Rightarrow> s
      | Some p \<Rightarrow>
          if writing p \<noteq> None then s
          else (case reply of
                  EndpointError \<Rightarrow> reject_all RefreshNetworkError p s
                | EndpointResponse statusCode body \<Rightarrow>
                    (case body of
                       None \<Rightarrow> reject_all BadRefreshResponse p s
                     | Some responseBody \<Rightarrow>
                         if 200 \<le> statusCode \<and> statusCode < 300 then
                           (case this_tokens s of
                              None \<Rightarrow> reject_all BadRefreshResponse p s
                            | Some d \<Rightarrow>
                                s\<lparr>this_tokens := Some (refreshedTokens responseBody now d),
                                  this_refreshPromise :=
                                    Some (p\<lparr>writing := Some (refreshedTokens responseBody now d)\<rparr>)\<rparr>)
                         else reject_all (RefreshRejected statusCode) p s)))"

definition TokenStorage_refresh_saved :: "bool \<Rightarrow> ts_state \<Rightarrow> ts_state" where
  "TokenStorage_refresh_saved write_ok s =
     (case this_refreshPromise s of
        None \<Rightarrow> s
      | Some p \<Rightarrow>
          (case writing p of
             None \<Rightarrow> s
           | Some d \<Rightarrow>
               if write_ok
               then s\<lparr>stored_file := Stored d,
                      this_refreshPromise := None,
                      settled := settled s @
                        map (\<lambda>caller. (caller, case this_tokens s of
                                                  None \<Rightarrow> Inl BadRefreshResponse
                                                | Some t \<Rightarrow> Inr (access_token t)))
                            (ts_waiters p)\<rparr>
               else reject_all RefreshedButNotSaved p s))"

datatype ts_event =
    RefreshCall nat
  | RefreshEnd endpoint_reply int
  | RefreshSaved bool

fun ts_step :: "ts_event \<Rightarrow> ts_state \<Rightarrow> ts_state" where
  "ts_step (RefreshCall caller) s = TokenStorage_refresh_call caller s"
| "ts_step (RefreshEnd reply now) s = TokenStorage_refresh_end reply now s"
| "ts_step (RefreshSaved write_ok) s = TokenStorage_refresh_saved write_ok s"

fun ts_run :: "ts_event list \<Rightarrow> ts_state \<Rightarrow> ts_state" where
  "ts_run [] s = s"
| "ts_run (e # es) s = ts_run es (ts_step e s)"

text \<open>
  \<open>refreshAccessToken\<close> for a caller that runs alone: the invocation, the response, the
  write. The result is the caller's promise: fulfilled with \<open>tokens.access_token\<close> or
  rejected.
\<close>

definition settled_for :: "nat \<Rightarrow> (nat \<times> (refresh_error + string option)) list
                           \<Rightarrow> refresh_error + string option" where
  "settled_for caller rs = (case map_of rs caller of None \<Rightarrow> Inl NoRefreshToken | Some r \<Rightarrow> r)"

definition TokenStorage_refreshAccessToken ::
  "endpoint_reply \<Rightarrow> int \<Rightarrow> bool \<Rightarrow> ts_state \<Rightarrow> (refresh_error + string option) \<times> ts_state" where
  "TokenStorage_refreshAccessToken reply now write_ok s =
     (let s1 = ts_run [RefreshCall 0, RefreshEnd reply now, RefreshSaved write_ok]
                 (s\<lparr>settled := []\<rparr>)
      in (settled_for 0 (settled s1), s1))"

text \<open>
  \<open>getValidAccessToken\<close> (lines 165-232) for a caller that runs alone. \<open>now\<close> is the clock
  at the expiry check; \<open>reply\<close>, \<open>now_reply\<close> and \<open>write_ok\<close> are the answer of the token
  endpoint, the clock when it arrives and the fate of the write, should a refresh go out.
\<close>

definition getValidAccessToken ::
  "int \<Rightarrow> endpoint_reply \<Rightarrow> int \<Rightarrow> bool \<Rightarrow> ts_state \<Rightarrow> string option \<times> ts_state" where
  "getValidAccessToken now reply now_reply write_ok s =
     (case getTokens s of
        (None, s1) \<Rightarrow> (None, s1)
      | (Some allTokens, s1) \<Rightarrow>
          (case accounts allTokens of
             Some acc \<Rightarrow>
               (if \<not> truthy (activeAccount allTokens) then (None, s1)
                else case map_of acc (the (activeAccount allTokens)) of
                  None \<Rightarrow> (None, s1)
                | Some activeTokens \<Rightarrow>
                    if \<not> truthy (access_token activeTokens) then (None, s1)
                    else if (case expires_at activeTokens of
                               None \<Rightarrow> False
                             | Some e \<Rightarrow> now \<ge> e - refreshTokenBuffer)
                    then (if truthy (refresh_token activeTokens)
                          then (case TokenStorage_refreshAccessToken reply now_reply write_ok s1 of
                                  (Inr t, s2) \<Rightarrow> (t, s2)
                                | (Inl refreshError, s2) \<Rightarrow> (None, s2))
                          else (None, s1))
                    else (access_token activeTokens, s1))
           | None \<Rightarrow>
               (if \<not> truthy (access_token allTokens) then (None, s1)
                else if isTokenExpired now s1
                then (if truthy (refresh_token allTokens)
                      then (case TokenStorage_refreshAccessToken reply now_reply write_ok s1 of
                              (Inr t, s2) \<Rightarrow> (t, s2)
                            | (Inl refreshError, s2) \<Rightarrow>
                                (None, snd (saveTokensToFile write_ok (s2\<lparr>this_tokens := None\<rparr>))))
                      else (None, snd (saveTokensToFile write_ok (s1\<lparr>this_tokens := None\<rparr>))))
                else (access_token allTokens, s1))))"

section \<open>The single-account \<open>TokenStorage\<close> class\<close>

text \<open>
  The second \<open>TokenStorage\<close> class of the repository stores one token object. Only its
  \<open>saveTokens\<close> and \<open>refreshToken\<close> are needed here.
\<close>

record tsb_state =
  clientId :: string
  clientSecret :: string
  b_cachedTokens :: "token_set option"
  b_tokenFile :: "token_set token_file"
  b_token_requests :: "string list"

definition nonzero :: "int option \<Rightarrow> bool" where
  "nonzero v = (case v of None \<Rightarrow> False | Some n \<Rightarrow> n \<noteq> 0)"

text \<open>
  \<open>saveTokens\<close> (lines 547-562). The first component is the token object as the method
  leaves it, the second whether the write succeeded.
\<close>

definition saveTokens :: "int \<Rightarrow> bool \<Rightarrow> token_set \<Rightarrow> tsb_state \<Rightarrow> (token_set \<times> bool) \<times> tsb_state" where
  "saveTokens now write_ok tokens s =
     (let tokens1 = (if \<not> nonzero (expires_at tokens) \<and> nonzero (expires_in tokens)
                     then tokens\<lparr>expires_at := Some (now + the (expires_in tokens) * 1000)\<rparr>
                     else tokens)
      in if write_ok
         then ((tokens1, True), s\<lparr>b_tokenFile := Stored tokens1, b_cachedTokens := Some tokens1\<rparr>)
         else ((tokens1, False), s))"

text \<open>
  Lines 628-637: the response object once \<open>expires_at\<close> is set and the refresh token that
  was used is kept when the response brings none.
\<close>

definition completedResponse :: "token_response \<Rightarrow> int \<Rightarrow> string option \<Rightarrow> token_set" where
  "completedResponse tokenResponse now refreshToken_arg =
     \<lparr>access_token = Some (resp_access_token tokenResponse),
      refresh_token = (if truthy (resp_refresh_token tokenResponse)
                       then resp_refresh_token tokenResponse
                       else refreshToken_arg),
      expires_in = Some (resp_expires_in tokenResponse),
      expires_at = Some (now + resp_expires_in tokenResponse * 1000),
      scope = None, token_type = None\<rparr>"

text \<open>
  \<open>refreshToken(refreshToken)\<close> (lines 586-663) for a caller that runs alone; the result
  is the new token object or \<open>null\<close>.
\<close>

definition refreshToken ::
  "endpoint_reply \<Rightarrow> int \<Rightarrow> bool \<Rightarrow> string option \<Rightarrow> tsb_state \<Rightarrow> token_set option \<times> tsb_state" where
  "refreshToken reply now write_ok refreshToken_arg s =
     (if \<not> truthy refreshToken_arg then (None, s)
      else if clientId s = [] \<or> clientSecret s = [] then (None, s)
      else
        let s1 = s\<lparr>b_token_requests := b_token_requests s @ [the refreshToken_arg]\<rparr>
        in (case reply of
              EndpointError \<Rightarrow> (None, s1)
            | EndpointResponse statusCode body \<Rightarrow>
                if 200 \<le> statusCode \<and> statusCode < 300 then
                  (case body of
                     None \<Rightarrow> (None, s1)
                   | Some tokenResponse \<Rightarrow>
                       (case saveTokens now write_ok
                               (completedResponse tokenResponse now refreshToken_arg) s1 of
                          ((t1, ok), s2) \<Rightarrow> (Some t1, s2)))
                else (None, s1)))"

section \<open>Example documents and states\<close>

text \<open>A freshly constructed \<open>TokenStorage\<close> over a token file.\<close>

definition fresh_storage :: "token_doc token_file \<Rightarrow> ts_state" where
  "fresh_storage f =
     \<lparr>this_tokens = None, this_refreshPromise = None, stored_file = f,
      token_requests = [], settled = [], refresh_invocations = 0\<rparr>"

text \<open>An old-format document \<open>{"access_token": "at-1", "expires_at": 9000000}\<close>.\<close>

definition legacy_doc :: token_doc where
  "legacy_doc =
     \<lparr>access_token = Some ''at-1'', refresh_token = None, expires_in = None,
      expires_at = Some 9000000, scope = None, token_type = None,
      accounts = None, activeAccount = None\<rparr>"

text \<open>The document \<open>{"access_token": ""}\<close>: the field is there and holds the empty string.\<close>

definition empty_token_doc :: token_doc where
  "empty_token_doc =
     \<lparr>access_token = Some [], refresh_token = None, expires_in = None,
      expires_at = None, scope = None, token_type = None,
      accounts = None, activeAccount = None\<rparr>"

text \<open>
  The registry of the scenario, looked at when the clock shows 1000000: the token of
  \<open>a@x.com\<close> is valid, the token of \<open>b@x.com\<close> has expired and has a refresh token, and
  \<open>b@x.com\<close> is the active account.
\<close>

definition account_a :: token_set where
  "account_a =
     \<lparr>access_token = Some ''at-a'', refresh_token = Some ''rt-a'', expires_in = Some 3600,
      expires_at = Some 9000000, scope = Some ''Mail.Read'', token_type = Some ''Bearer''\<rparr>"

definition account_b :: token_set where
  "account_b =
     \<lparr>access_token = Some ''at-b'', refresh_token = Some ''rt-b'', expires_in = Some 3600,
      expires_at = Some 900000, scope = Some ''Mail.Read'', token_type = Some ''Bearer''\<rparr>"

definition two_accounts :: token_doc where
  "two_accounts =
     \<lparr>access_token = None, refresh_token = None, expires_in = None,
      expires_at = None, scope = None, token_type = None,
      accounts = Some [(''a@x.com'', account_a), (''b@x.com'', account_b)],
      activeAccount = Some ''b@x.com''\<rparr>"



text \<open>A successful answer of the token endpoint that carries no new refresh token.\<close>

definition good_reply :: endpoint_reply where
  "good_reply = EndpointResponse 200
     (Some \<lparr>resp_access_token = ''at-new'', resp_refresh_token = None, resp_expires_in = 3600\<rparr>)"

text \<open>A successful answer whose token lives for one minute.\<close>

definition short_reply :: endpoint_reply where
  "short_reply = EndpointResponse 200
     (Some \<lparr>resp_access_token = ''at-new'', resp_refresh_token = None, resp_expires_in = 60\<rparr>)"

text \<open>
  The module state of \<open>token-manager.js\<close> with a cached token that expires at 1200000,
  which at 1000000 is within the five-minute buffer.
\<close>

definition due_tokens :: token_set where
  "due_tokens =
     \<lparr>access_token = Some ''at-old'', refresh_token = Some ''rt-1'', expires_in = Some 3600,
      expires_at = Some 1200000, scope = None, token_type = None\<rparr>"

definition due_state :: tm_state where
  "due_state =
     \<lparr>cachedTokens = Some due_tokens, refreshPromise = None, tokenFile = Stored due_tokens,
      endpoint_requests = [], resolved = []\<rparr>"

text \<open>The old-format document with the same token, and a \<open>TokenStorage\<close> that has loaded it.\<close>

definition due_doc :: token_doc where
  "due_doc =
     \<lparr>access_token = Some ''at-old'', refresh_token = Some ''rt-1'', expires_in = Some 3600,
      expires_at = Some 1200000, scope = None, token_type = None,
      accounts = None, activeAccount = None\<rparr>"

definition due_storage :: ts_state where
  "due_storage = (fresh_storage (Stored due_doc))\<lparr>this_tokens := Some due_doc\<rparr>"

definition due_storage_b :: tsb_state where
  "due_storage_b =
     \<lparr>clientId = ''client'', clientSecret = ''secret'', b_cachedTokens = Some due_tokens,
      b_tokenFile = Stored due_tokens, b_token_requests = []\<rparr>"

subsection \<open>Vocabulary for the token properties\<close>

text \<open>The path is not a full URL, so \<open>callGraphAPI\<close> builds the URL itself.\<close>

definition relative_path :: "string \<Rightarrow> bool" where
  "relative_path path = (\<not> (startsWith path ''http://'' \<or> startsWith path ''https://''))"




text \<open>A successful answer of the token endpoint with body \<open>responseBody\<close>.\<close>

definition success_reply :: "endpoint_reply \<Rightarrow> token_response \<Rightarrow> bool" where
  "success_reply reply responseBody =
     (\<exists>statusCode. 200 \<le> statusCode \<and> statusCode < 300
                  \<and> reply = EndpointResponse statusCode (Some responseBody))"




subsection \<open>Vocabulary for the encoding properties\<close>

text \<open>
  \<open>decodeURIComponent\<close>: every \<open>%XX\<close> becomes the byte it names; a \<open>%\<close> that is not
  followed by two hexadecimal digits is an error (\<open>None\<close>).
\<close>

fun decodeURIComponent :: "string \<Rightarrow> string option" where
  "decodeURIComponent [] = Some []"
| "decodeURIComponent (c # cs) =
     (if c = CHR ''%'' then
        (case cs of
           h # l # rest \<Rightarrow>
             (case (hex_val h, hex_val l) of
                (Some a, Some b) \<Rightarrow> map_option ((#) (char_of (16 * a + b))) (decodeURIComponent rest)
              | _ \<Rightarrow> None)
         | _ \<Rightarrow> None)
      else map_option ((#) c) (decodeURIComponent cs))"

text \<open>The characters that neither encoder leaves where they could be taken for syntax.\<close>

definition plain :: "char \<Rightarrow> bool" where
  "plain c = (c \<noteq> CHR ''&'' \<and> c \<noteq> CHR ''='' \<and> c \<noteq> CHR ''+'' \<and> c \<noteq> CHR ''%'')"

text \<open>How the \<open>URLSearchParams\<close> parser decodes a name or a value.\<close>

definition dec :: "string \<Rightarrow> string" where
  "dec s = percent_decode (plus_to_space s)"

text \<open>One \<open>name=value\<close> piece as \<open>URLSearchParams.prototype.toString\<close> writes it.\<close>

definition pair_piece :: "string \<times> string \<Rightarrow> string" where
  "pair_piece p = form_encode (fst p) @ ''='' @ form_encode (snd p)"

text \<open>How the \<open>URLSearchParams\<close> parser reads one piece: cut at the first \<open>=\<close>, decode.\<close>

definition parse_piece :: "string \<Rightarrow> string \<times> string" where
  "parse_piece piece = (dec (takeWhile (\<lambda>c. c \<noteq> CHR ''='') piece),
                        dec (drop 1 (dropWhile (\<lambda>c. c \<noteq> CHR ''='') piece)))"

text \<open>
  A filter expression with a quote and an ampersand, and the same expression after the
  caller has passed it through \<open>encodeURIComponent\<close>.
\<close>

definition folder_filter :: string where
  "folder_filter = ''startswith(displayName,'R&D')''"

definition folder_filter_encoded :: string where
  "folder_filter_encoded = ''startswith(displayName%2C'R%26D')''"

section \<open>Properties of the paginated client\<close>

subsection \<open>One call, one exchange\<close>

lemma callGraphAPI_real:
  "real_call cfg tok \<Longrightarrow>
   callGraphAPI cfg srv tr tok ''GET'' url None ps =
     (handleReply cfg (srv tr (page_request tok url ps)), snd (buildUrl url ps),
      tr @ [(page_request tok url ps, srv tr (page_request tok url ps))])"
  by (simp add: callGraphAPI_def real_call_def page_request_def wantsBody_def truthy_def Let_def split_beta)

lemma callGraphAPI_v2_real:
  "real_call cfg tok \<Longrightarrow>
   callGraphAPI_v2 cfg srv tr tok ''GET'' url None ps =
     (handleReply cfg (srv tr (page_request_v2 tok url ps)),
      tr @ [(page_request_v2 tok url ps, srv tr (page_request_v2 tok url ps))])"
  by (simp add: callGraphAPI_v2_def real_call_def page_request_v2_def wantsBody_def truthy_def Let_def)


lemma paginate_v2_step:
  assumes "real_call cfg tok" "handleReply cfg (srv tr (page_request_v2 tok url ps)) = Inr pg"
    "Suc pc \<le> MAX_PAGINATION_PAGES"
  shows "paginate_v2 cfg srv tok mc items url ps pc tr =
     (if mc > 0 \<and> int (length (items @ items_of pg)) \<ge> mc
      then (Inr (items @ items_of pg), tr @ [(page_request_v2 tok url ps, srv tr (page_request_v2 tok url ps))])
      else if truthy (nextLink pg)
      then paginate_v2 cfg srv tok mc (items @ items_of pg) (the (nextLink pg)) [] (Suc pc)
             (tr @ [(page_request_v2 tok url ps, srv tr (page_request_v2 tok url ps))])
      else (Inr (items @ items_of pg), tr @ [(page_request_v2 tok url ps, srv tr (page_request_v2 tok url ps))]))"
  using assms(3)
  by (subst paginate_v2.simps) (simp add: callGraphAPI_v2_real[OF assms(1)] assms(2) Let_def)


subsection \<open>The loop without a ceiling does not return on a looping cursor\<close>

lemma paginate_never_returns_aux:
  assumes "paginate cfg srv tok mc items url ps tr = Some y"
  shows "\<not> (real_call cfg tok \<and> mc \<le> 0 \<and> always_more cfg srv)"
proof (rule paginate.raw_induct[where P = "\<lambda>cfg srv tok mc items url ps tr y.
          \<not> (real_call cfg tok \<and> mc \<le> 0 \<and> always_more cfg srv)", OF _ assms], goal_cases)
  case (1 pag cfg srv tok mc items url ps tr y)
  show ?case
  proof
    assume h: "real_call cfg tok \<and> mc \<le> 0 \<and> always_more cfg srv"
    let ?q = "page_request tok url ps"
    from h obtain pg where
      pg: "handleReply cfg (srv tr ?q) = Inr pg" "truthy (nextLink pg)"
      unfolding always_more_def by blast
    from 1(2) have "pag cfg srv tok mc (items @ items_of pg) (the (nextLink pg)) []
                      (tr @ [(?q, srv tr ?q)]) = Some y"
      using pg h by (simp add: callGraphAPI_real Let_def)
    then show False using 1(1) h by blast
  qed
qed

lemma paginate_never_returns:
  "real_call cfg tok \<Longrightarrow> mc \<le> 0 \<Longrightarrow> always_more cfg srv \<Longrightarrow>
   paginate cfg srv tok mc items url ps tr = None"
  using paginate_never_returns_aux[of cfg srv tok mc items url ps tr]
  by (cases "paginate cfg srv tok mc items url ps tr") auto

lemma looping_real_call: "real_call looping_config tok"
  by (simp add: real_call_def looping_config_def)

lemma looping_always_more: "always_more looping_config looping_server"
  by (simp add: always_more_def looping_server_def looping_config_def handleReply_def truthy_def)

subsection \<open>The loop with the ceiling stops at the ceiling\<close>

lemma callGraphAPI_v2_trace:
  "length (snd (callGraphAPI_v2 cfg srv tr tok verb url payload ps)) \<le> Suc (length tr)"
  by (simp add: callGraphAPI_v2_def Let_def)

lemma paginate_v2_fetch_bound:
  "length (snd (paginate_v2 cfg srv tok mc items url ps pc tr))
     \<le> length tr + (MAX_PAGINATION_PAGES - pc)"
proof (induction cfg srv tok mc items url ps pc tr rule: paginate_v2.induct)
  case (1 cfg srv tok mc items url ps pc tr)
  show ?case
  proof (cases "Suc pc > MAX_PAGINATION_PAGES")
    case True
    then show ?thesis by (subst paginate_v2.simps) simp
  next
    case False
    obtain res tr1 where c: "callGraphAPI_v2 cfg srv tr tok ''GET'' url None ps = (res, tr1)"
      by (cases "callGraphAPI_v2 cfg srv tr tok ''GET'' url None ps")
    have l: "length tr1 \<le> Suc (length tr)"
      using callGraphAPI_v2_trace[of cfg srv tr tok "''GET''" url None ps] c by simp
    show ?thesis
    proof (cases res)
      case (Inl e)
      then show ?thesis using False c l by (subst paginate_v2.simps) simp
    next
      case (Inr response)
      show ?thesis
      proof (cases "\<not> (mc > 0 \<and> int (length (items @ items_of response)) \<ge> mc)
                    \<and> truthy (nextLink response)")
        case True
        have "length (snd (paginate_v2 cfg srv tok mc (items @ items_of response)
                             (the (nextLink response)) [] (Suc pc) tr1))
              \<le> length tr1 + (MAX_PAGINATION_PAGES - Suc pc)"
          using "1.IH"[OF False c[symmetric] Inr] True by blast
        then show ?thesis using False c l Inr True by (subst paginate_v2.simps) auto
      next
        case nrec: False
        then show ?thesis using False c l Inr by (subst paginate_v2.simps) auto
      qed
    qed
  qed
qed

lemma callGraphAPIPaginated_v2_page_ceiling:
  "length (snd (callGraphAPIPaginated_v2 cfg srv tr tok verb path ps mc))
     \<le> length tr + MAX_PAGINATION_PAGES"
  using paginate_v2_fetch_bound[of cfg srv tok mc "[]" path ps 0 tr]
  by (auto simp: callGraphAPIPaginated_v2_def split: prod.splits sum.splits)

lemma paginate_v2_runs_to_ceiling:
  "real_call cfg tok \<Longrightarrow> always_more cfg srv \<Longrightarrow> mc \<le> 0 \<Longrightarrow> n = MAX_PAGINATION_PAGES - pc \<Longrightarrow>
   pc \<le> MAX_PAGINATION_PAGES \<Longrightarrow>
   \<exists>t. paginate_v2 cfg srv tok mc items url ps pc tr = (Inr (items @ fetched_items cfg t), tr @ t)
      \<and> length t = n \<and> (\<forall>e \<in> set t. \<exists>tr'. snd e = srv tr' (fst e))"
proof (induction n arbitrary: pc items url ps tr)
  case 0
  then have "paginate_v2 cfg srv tok mc items url ps pc tr = (Inr items, tr)"
    by (subst paginate_v2.simps) simp
  then show ?case by (intro exI[of _ "[]"]) (simp add: fetched_items_def)
next
  case (Suc n)
  let ?q = "page_request_v2 tok url ps"
  let ?e = "(?q, srv tr ?q)"
  from Suc.prems(2) obtain pg where
    pg: "handleReply cfg (srv tr ?q) = Inr pg" "truthy (nextLink pg)"
    unfolding always_more_def by blast
  have le: "Suc pc \<le> MAX_PAGINATION_PAGES" using Suc.prems by simp
  have eq: "paginate_v2 cfg srv tok mc items url ps pc tr
          = paginate_v2 cfg srv tok mc (items @ items_of pg) (the (nextLink pg)) [] (Suc pc) (tr @ [?e])"
    using paginate_v2_step[where srv=srv and tr=tr, OF Suc.prems(1) pg(1) le, of mc items] pg(2) Suc.prems(3)
    by simp
  have n: "n = MAX_PAGINATION_PAGES - Suc pc" using Suc.prems(4) by simp
  from Suc.IH[OF Suc.prems(1,2,3) n le, of "items @ items_of pg" "the (nextLink pg)" "[]" "tr @ [?e]"]
  obtain t where
    t: "paginate_v2 cfg srv tok mc (items @ items_of pg) (the (nextLink pg)) [] (Suc pc) (tr @ [?e])
          = (Inr ((items @ items_of pg) @ fetched_items cfg t), (tr @ [?e]) @ t)" "length t = n"
       "\<forall>e \<in> set t. \<exists>tr'. snd e = srv tr' (fst e)"
    by blast
  have f: "fetched_items cfg (?e # t) = items_of pg @ fetched_items cfg t"
    using pg(1) by (simp add: fetched_items_def)
  show ?case unfolding eq using t f by (intro exI[of _ "?e # t"]) auto
qed

subsection \<open>What the loop collects\<close>

lemma fetched_items_snoc:
  "handleReply cfg reply = Inr pg \<Longrightarrow> fetched_items cfg (t @ [(req, reply)]) = fetched_items cfg t @ items_of pg"
  by (simp add: fetched_items_def)

lemma fetched_items_Nil: "fetched_items cfg [] = []"
  by (simp add: fetched_items_def)








subsection \<open>Claims about pagination\<close>

lemma callGraphAPIPaginated_v2_stops_on_looping_cursor:
  "\<exists>t. callGraphAPIPaginated_v2 looping_config looping_server [] ''token'' ''GET'' ''me/messages'' [] 0
          = (Inr \<lparr>result_items = fetched_items looping_config t,
                  odata_count = MAX_PAGINATION_PAGES\<rparr>, t)
        \<and> length t = MAX_PAGINATION_PAGES
        \<and> length (fetched_items looping_config t) = MAX_PAGINATION_PAGES"
proof -
  have "\<exists>t. paginate_v2 looping_config looping_server ''token'' 0 [] ''me/messages'' [] 0 []
          = (Inr ([] @ fetched_items looping_config t), [] @ t) \<and> length t = MAX_PAGINATION_PAGES
          \<and> (\<forall>e \<in> set t. \<exists>tr'. snd e = looping_server tr' (fst e))"
    by (rule paginate_v2_runs_to_ceiling[OF looping_real_call looping_always_more]) simp_all
  then obtain t where
    t: "paginate_v2 looping_config looping_server ''token'' 0 [] ''me/messages'' [] 0 []
          = (Inr ([] @ fetched_items looping_config t), [] @ t)" "length t = MAX_PAGINATION_PAGES"
       "\<forall>e \<in> set t. snd e = Response 200 ''{}''"
    unfolding looping_server_def by blast
  have "(\<forall>e \<in> set u. snd e = Response 200 ''{}'')
        \<Longrightarrow> fetched_items looping_config u = replicate (length u) ''message''" for u
    by (induction u)
       (auto simp: fetched_items_def looping_config_def handleReply_def items_of_def)
  then have "length (fetched_items looping_config t) = MAX_PAGINATION_PAGES"
    using t(2,3) by simp
  then show ?thesis
    using t by (intro exI[of _ t]) (simp add: callGraphAPIPaginated_v2_def finish_def)
qed

text \<open>
  Claim C1. With \<open>maxCount = 0\<close> and a remote API whose continuation cursor leads back to
  an earlier page, the paginated call is to stop after at most
  \<open>config.MAX_PAGINATION_PAGES\<close> page fetches and return what it has accumulated. The
  second variant of the client does so (\<open>callGraphAPIPaginated_v2_page_ceiling\<close>,
  \<open>callGraphAPIPaginated_v2_stops_on_looping_cursor\<close>). The loop of
  \<open>utils/graph-api.js\<close> has no page counter: on the looping API the call
  \<open>callGraphAPIPaginated(token, 'GET', 'me/messages', {}, 0)\<close> never returns.
\<close>

theorem callGraphAPIPaginated_never_returns_on_looping_cursor:
  "callGraphAPIPaginated looping_config looping_server [] ''token'' ''GET'' ''me/messages'' [] 0 = None"
  by (simp add: callGraphAPIPaginated_def
        paginate_never_returns[OF looping_real_call _ looping_always_more])





section \<open>Properties of the token stores\<close>

subsection \<open>A refresh that the token endpoint accepts\<close>

lemma tm_refresh_success:
  assumes "success_reply reply rb" "refreshPromise s = None" "cachedTokens s = Some old"
    "truthy (refresh_token old)"
  shows "refreshAccessToken reply now write_ok s =
     (if write_ok then Some (resp_access_token rb) else None,
      s\<lparr>cachedTokens := Some (updateTokens rb now old),
        tokenFile := (if write_ok then Stored (updateTokens rb now old) else tokenFile s),
        endpoint_requests := endpoint_requests s @ [the (refresh_token old)],
        refreshPromise := None,
        resolved := [(0, if write_ok then Some (resp_access_token rb) else None)]\<rparr>)"
  using assms
  by (auto simp: success_reply_def refreshAccessToken_def refreshAccessToken_call_def
        refresh_settle_def refresh_outcome_def saveTokenCache_def result_of_def Let_def
        updateTokens_def)

lemma ts_refresh_success:
  assumes "success_reply reply rb" "this_refreshPromise s = None" "this_tokens s = Some old"
    "truthy (refresh_token old)"
  shows "TokenStorage_refreshAccessToken reply now write_ok s =
     (if write_ok then Inr (Some (resp_access_token rb)) else Inl RefreshedButNotSaved,
      s\<lparr>this_tokens := Some (refreshedTokens rb now old),
        stored_file := (if write_ok then Stored (refreshedTokens rb now old) else stored_file s),
        token_requests := token_requests s @ [the (refresh_token old)],
        this_refreshPromise := None,
        refresh_invocations := Suc (refresh_invocations s),
        settled := [(0, if write_ok then Inr (Some (resp_access_token rb))
                        else Inl RefreshedButNotSaved)]\<rparr>)"
  using assms
  by (auto simp: success_reply_def TokenStorage_refreshAccessToken_def
        TokenStorage_refresh_call_def TokenStorage_refresh_end_def TokenStorage_refresh_saved_def
        settled_for_def reject_all_def Let_def refreshedTokens_def)

lemma tsb_refresh_success:
  assumes "success_reply reply rb" "truthy rt" "clientId s \<noteq> []" "clientSecret s \<noteq> []"
  shows "refreshToken reply now write_ok rt s =
     (Some (completedResponse rb now rt),
      s\<lparr>b_token_requests := b_token_requests s @ [the rt],
        b_tokenFile := (if write_ok then Stored (completedResponse rb now rt) else b_tokenFile s),
        b_cachedTokens := (if write_ok then Some (completedResponse rb now rt)
                           else b_cachedTokens s)\<rparr>)"
  using assms
  by (auto simp: success_reply_def refreshToken_def saveTokens_def Let_def nonzero_def
        completedResponse_def)

lemma good_reply_success:
  "success_reply good_reply
     \<lparr>resp_access_token = ''at-new'', resp_refresh_token = None, resp_expires_in = 3600\<rparr>"
  by (simp add: success_reply_def good_reply_def)

lemma short_reply_success:
  "success_reply short_reply
     \<lparr>resp_access_token = ''at-new'', resp_refresh_token = None, resp_expires_in = 60\<rparr>"
  by (simp add: success_reply_def short_reply_def)

lemma map_of_delete_key:
  "map_of (delete_key k ps) k' = (if k' = k then None else map_of ps k')"
  by (induction ps) (auto simp: delete_key_def)

subsection \<open>Claims about the token stores\<close>

text \<open>
  Claim C5. The registry holds a valid token for \<open>a@x.com\<close> and an expired token with a
  refresh token for \<open>b@x.com\<close>, and \<open>b@x.com\<close> is active; \<open>getValidAccessToken()\<close> is to
  make one refresh call with the refresh token of \<open>b@x.com\<close>, return the new access token
  and leave the token of \<open>a@x.com\<close> alone. In the code \<open>refreshAccessToken\<close> looks for the
  refresh token at the top of the document, where the multi-account format has none: the
  call is rejected before any request goes out and \<open>getValidAccessToken()\<close> returns
  \<open>null\<close>, with the document and the file as they were.
\<close>

theorem getValidAccessToken_active_account_not_refreshed:
  "getValidAccessToken 1000000 good_reply 1000500 True (fresh_storage (Stored two_accounts))
   = (None, \<lparr>this_tokens = Some two_accounts, this_refreshPromise = None,
              stored_file = Stored two_accounts, token_requests = [],
              settled = [(0, Inl NoRefreshToken)], refresh_invocations = 1\<rparr>)"
  by (simp add: getValidAccessToken_def getTokens_def loadTokensFromFile_def fresh_storage_def
        TokenStorage_refreshAccessToken_def TokenStorage_refresh_call_def
        TokenStorage_refresh_end_def TokenStorage_refresh_saved_def settled_for_def
        refreshTokenBuffer_def truthy_def Let_def two_accounts_def account_a_def account_b_def)

text \<open>
  Claim C6, as the code has it. After a refresh that the token endpoint accepts and that is
  saved, the stored access token is the one of the response, the stored \<open>expires_at\<close> is
  the clock at the moment of the response plus \<open>expires_in\<close> seconds, and the stored refresh
  token is the one of the response when the response has one and the previous one
  otherwise. This holds in \<open>token-manager.js\<close> and in both \<open>TokenStorage\<close> classes. The new
  \<open>expires_at\<close> is therefore greater than the old one exactly when the old one is smaller
  than that sum.
\<close>

theorem refresh_replaces_token_and_expiry:
  "success_reply reply rb \<Longrightarrow>
   (\<forall>s old. refreshPromise s = None \<and> cachedTokens s = Some old \<and> truthy (refresh_token old) \<longrightarrow>
      (\<exists>t. cachedTokens (snd (refreshAccessToken reply now True s)) = Some t
          \<and> tokenFile (snd (refreshAccessToken reply now True s)) = Stored t
          \<and> access_token t = Some (resp_access_token rb)
          \<and> expires_at t = Some (now + resp_expires_in rb * 1000)
          \<and> refresh_token t = (if truthy (resp_refresh_token rb) then resp_refresh_token rb
                                else refresh_token old)
          \<and> (\<forall>e. expires_at old = Some e \<longrightarrow>
                (e < the (expires_at t)) = (e < now + resp_expires_in rb * 1000))))
   \<and> (\<forall>s old. this_refreshPromise s = None \<and> this_tokens s = Some old \<and> truthy (refresh_token old) \<longrightarrow>
      (\<exists>t. this_tokens (snd (TokenStorage_refreshAccessToken reply now True s)) = Some t
          \<and> stored_file (snd (TokenStorage_refreshAccessToken reply now True s)) = Stored t
          \<and> access_token t = Some (resp_access_token rb)
          \<and> expires_at t = Some (now + resp_expires_in rb * 1000)
          \<and> refresh_token t = (if truthy (resp_refresh_token rb) then resp_refresh_token rb
                                else refresh_token old)))
   \<and> (\<forall>s rt. truthy rt \<and> clientId s \<noteq> [] \<and> clientSecret s \<noteq> [] \<longrightarrow>
      (\<exists>t. fst (refreshToken reply now True rt s) = Some t
          \<and> b_cachedTokens (snd (refreshToken reply now True rt s)) = Some t
          \<and> b_tokenFile (snd (refreshToken reply now True rt s)) = Stored t
          \<and> access_token t = Some (resp_access_token rb)
          \<and> expires_at t = Some (now + resp_expires_in rb * 1000)
          \<and> refresh_token t = (if truthy (resp_refresh_token rb) then resp_refresh_token rb
                                else rt)))"
  by (simp add: tm_refresh_success ts_refresh_success tsb_refresh_success
        updateTokens_def refreshedTokens_def completedResponse_def)

theorem refresh_replaces_token_and_expiry_witness:
  "success_reply good_reply
     \<lparr>resp_access_token = ''at-new'', resp_refresh_token = None, resp_expires_in = 3600\<rparr>
   \<and> refreshPromise due_state = None \<and> cachedTokens due_state = Some due_tokens
   \<and> truthy (refresh_token due_tokens)
   \<and> (\<exists>t. cachedTokens (snd (refreshAccessToken good_reply 1000500 True due_state)) = Some t
          \<and> tokenFile (snd (refreshAccessToken good_reply 1000500 True due_state)) = Stored t
          \<and> access_token t = Some ''at-new''
          \<and> expires_at t = Some 4600500
          \<and> refresh_token t = Some ''rt-1'')"
proof -
  have h: "refreshPromise due_state = None \<and> cachedTokens due_state = Some due_tokens
           \<and> truthy (refresh_token due_tokens)"
    by (simp add: due_state_def due_tokens_def truthy_def)
  have "\<exists>t. cachedTokens (snd (refreshAccessToken good_reply 1000500 True due_state)) = Some t
          \<and> tokenFile (snd (refreshAccessToken good_reply 1000500 True due_state)) = Stored t
          \<and> access_token t = Some ''at-new''
          \<and> expires_at t = Some 4600500
          \<and> refresh_token t = Some ''rt-1''"
    using refresh_replaces_token_and_expiry[OF good_reply_success, of 1000500,
            THEN conjunct1, rule_format, OF h]
    by (auto simp: truthy_def due_tokens_def)
  then show ?thesis using h good_reply_success by simp
qed

text \<open>
  Claim C6 as stated asks that \<open>expires_at\<close> grow with every successful refresh. A token
  that expires at 1200000 is due for refresh at 1000000; when the response arrives at
  1000500 with \<open>expires_in = 60\<close>, the new \<open>expires_at\<close> is 1060500, which is smaller.
\<close>

theorem refresh_expiry_can_decrease:
  "fst (refreshAccessToken short_reply 1000500 True due_state) = Some ''at-new''
   \<and> map_option expires_at (cachedTokens due_state) = Some (Some 1200000)
   \<and> map_option expires_at (cachedTokens (snd (refreshAccessToken short_reply 1000500 True due_state)))
       = Some (Some 1060500)
   \<and> \<not> (the (expires_at (the (cachedTokens (snd (refreshAccessToken short_reply 1000500 True due_state)))))
          > the (expires_at (the (cachedTokens due_state))))"
  by (simp add: refreshAccessToken_def refreshAccessToken_call_def refresh_settle_def
        refresh_outcome_def saveTokenCache_def result_of_def updateTokens_def
        due_state_def due_tokens_def short_reply_def truthy_def Let_def)

text \<open>
  Claim C7, as the code has it. When the token endpoint accepts the refresh and the write
  of the new tokens fails, the refresh reports a failure to its caller: \<open>refreshAccessToken\<close>
  of \<open>token-manager.js\<close> resolves to \<open>null\<close>, and \<open>TokenStorage.refreshAccessToken\<close> rejects
  with "Access token refreshed but failed to save". At that moment the token object in
  memory already holds the new access token and the file still holds the old document.
\<close>

theorem refresh_fails_when_save_fails:
  "success_reply reply rb \<Longrightarrow>
   (\<forall>s old. refreshPromise s = None \<and> cachedTokens s = Some old \<and> truthy (refresh_token old) \<longrightarrow>
      fst (refreshAccessToken reply now False s) = None
      \<and> map_option access_token (cachedTokens (snd (refreshAccessToken reply now False s)))
          = Some (Some (resp_access_token rb))
      \<and> tokenFile (snd (refreshAccessToken reply now False s)) = tokenFile s)
   \<and> (\<forall>s old. this_refreshPromise s = None \<and> this_tokens s = Some old \<and> truthy (refresh_token old) \<longrightarrow>
      fst (TokenStorage_refreshAccessToken reply now False s) = Inl RefreshedButNotSaved
      \<and> map_option access_token (this_tokens (snd (TokenStorage_refreshAccessToken reply now False s)))
          = Some (Some (resp_access_token rb))
      \<and> stored_file (snd (TokenStorage_refreshAccessToken reply now False s)) = stored_file s)"
  by (simp add: tm_refresh_success ts_refresh_success updateTokens_def refreshedTokens_def)

theorem refresh_fails_when_save_fails_witness:
  "success_reply good_reply
     \<lparr>resp_access_token = ''at-new'', resp_refresh_token = None, resp_expires_in = 3600\<rparr>
   \<and> this_refreshPromise due_storage = None \<and> this_tokens due_storage = Some due_doc
   \<and> truthy (refresh_token due_doc)
   \<and> fst (TokenStorage_refreshAccessToken good_reply 1000500 False due_storage)
       = Inl RefreshedButNotSaved
   \<and> map_option access_token
        (this_tokens (snd (TokenStorage_refreshAccessToken good_reply 1000500 False due_storage)))
       = Some (Some ''at-new'')
   \<and> stored_file (snd (TokenStorage_refreshAccessToken good_reply 1000500 False due_storage))
       = Stored due_doc"
proof -
  have h: "this_refreshPromise due_storage = None \<and> this_tokens due_storage = Some due_doc
           \<and> truthy (refresh_token due_doc)"
    by (simp add: due_storage_def due_doc_def fresh_storage_def truthy_def)
  have "fst (TokenStorage_refreshAccessToken good_reply 1000500 False due_storage)
          = Inl RefreshedButNotSaved
        \<and> map_option access_token
             (this_tokens (snd (TokenStorage_refreshAccessToken good_reply 1000500 False due_storage)))
          = Some (Some ''at-new'')
        \<and> stored_file (snd (TokenStorage_refreshAccessToken good_reply 1000500 False due_storage))
          = stored_file due_storage"
    using refresh_fails_when_save_fails[OF good_reply_success, of 1000500,
            THEN conjunct2, rule_format, OF h]
    by simp
  moreover have "stored_file due_storage = Stored due_doc"
    by (simp add: due_storage_def fresh_storage_def)
  ultimately show ?thesis using h good_reply_success by simp
qed

text \<open>
  Claim C7 as stated asks that the caller of the refresh still receive the new access
  token when the write fails. With the write failing, \<open>refreshAccessToken\<close> of
  \<open>token-manager.js\<close> gives \<open>null\<close> and \<open>getAccessToken\<close> passes the \<open>null\<close> on.
\<close>

theorem refresh_with_failed_save_yields_no_token:
  "fst (refreshAccessToken good_reply 1000500 False due_state) = None
   \<and> fst (getAccessToken 1000000 good_reply 1000500 False due_state) = None
   \<and> fst (TokenStorage_refreshAccessToken good_reply 1000500 False due_storage)
       = Inl RefreshedButNotSaved"
  by (simp add: refreshAccessToken_def getAccessToken_def getAccessToken_call_def
        refreshAccessToken_call_def refresh_settle_def refresh_outcome_def saveTokenCache_def
        result_of_def refreshBuffer_def updateTokens_def
        TokenStorage_refreshAccessToken_def TokenStorage_refresh_call_def
        TokenStorage_refresh_end_def TokenStorage_refresh_saved_def settled_for_def
        reject_all_def refreshedTokens_def
        due_state_def due_tokens_def due_storage_def due_doc_def fresh_storage_def truthy_def
        good_reply_def Let_def)

text \<open>
  Claim C9, as the code has it. For an old-format document, one without an \<open>accounts\<close>
  object and with a non-empty \<open>access_token\<close>, \<open>getAllAccounts\<close> returns exactly
  \<open>["default"]\<close>; when the document has an \<open>accounts\<close> object it returns the keys of that
  object.
\<close>

theorem getAllAccounts_legacy_and_multi:
  "fst (getTokens s) = Some d \<Longrightarrow>
   (accounts d = None \<and> truthy (access_token d) \<longrightarrow> fst (getAllAccounts s) = [''default''])
   \<and> (\<forall>acc. accounts d = Some acc \<longrightarrow> fst (getAllAccounts s) = map fst acc)"
  by (auto simp: getAllAccounts_def split: prod.splits option.splits)

theorem getAllAccounts_legacy_and_multi_witness:
  "fst (getTokens (fresh_storage (Stored legacy_doc))) = Some legacy_doc
   \<and> accounts legacy_doc = None \<and> truthy (access_token legacy_doc)
   \<and> fst (getAllAccounts (fresh_storage (Stored legacy_doc))) = [''default'']
   \<and> fst (getTokens (fresh_storage (Stored two_accounts))) = Some two_accounts
   \<and> fst (getAllAccounts (fresh_storage (Stored two_accounts))) = [''a@x.com'', ''b@x.com'']"
  using getAllAccounts_legacy_and_multi[of "fresh_storage (Stored legacy_doc)" legacy_doc]
        getAllAccounts_legacy_and_multi[of "fresh_storage (Stored two_accounts)" two_accounts]
  by (simp add: getTokens_def loadTokensFromFile_def fresh_storage_def legacy_doc_def
        two_accounts_def truthy_def)

text \<open>
  Claim C9 as stated covers every stored object with an \<open>access_token\<close> field and no
  \<open>accounts\<close> key. For the document \<open>{"access_token": ""}\<close> the field is there, and
  \<open>getAllAccounts\<close> returns the empty list.
\<close>

theorem getAllAccounts_empty_access_token:
  "access_token empty_token_doc \<noteq> None \<and> accounts empty_token_doc = None
   \<and> fst (getAllAccounts (fresh_storage (Stored empty_token_doc))) = []
   \<and> fst (getAllAccounts (fresh_storage (Stored empty_token_doc))) \<noteq> [''default'']"
  by (simp add: getAllAccounts_def getTokens_def loadTokensFromFile_def fresh_storage_def
        empty_token_doc_def truthy_def)

text \<open>
  Claim C10, as the code has it. Outside test mode and with a relative path,
  \<open>callGraphAPI\<close> of \<open>utils/graph-api.js\<close> deletes \<open>$filter\<close> from the caller's parameter
  object whenever the object holds a non-empty value under that key, and leaves every
  other key as it was; an object without such a value is left as it was.
\<close>

theorem callGraphAPI_deletes_filter_from_callers_object:
  "real_call cfg tok \<Longrightarrow> relative_path path \<Longrightarrow>
   (truthy (map_of queryParams ''$filter'') \<longrightarrow>
      fst (snd (callGraphAPI cfg srv tr tok verb path payload queryParams))
        = delete_key ''$filter'' queryParams
      \<and> map_of (fst (snd (callGraphAPI cfg srv tr tok verb path payload queryParams))) ''$filter''
          = None
      \<and> (\<forall>k. k \<noteq> ''$filter'' \<longrightarrow>
            map_of (fst (snd (callGraphAPI cfg srv tr tok verb path payload queryParams))) k
              = map_of queryParams k))
   \<and> (\<not> truthy (map_of queryParams ''$filter'') \<longrightarrow>
      fst (snd (callGraphAPI cfg srv tr tok verb path payload queryParams)) = queryParams)"
  by (auto simp: callGraphAPI_def real_call_def relative_path_def buildUrl_def
        buildQueryString_def Let_def split_beta map_of_delete_key truthy_def)

theorem callGraphAPI_deletes_filter_from_callers_object_witness:
  "real_call looping_config ''token'' \<and> relative_path ''me/messages''
   \<and> truthy (map_of [(''$top'', ''10''), (''$filter'', ''isRead eq false'')] ''$filter'')
   \<and> fst (snd (callGraphAPI looping_config looping_server [] ''token'' ''GET'' ''me/messages'' None
                  [(''$top'', ''10''), (''$filter'', ''isRead eq false'')]))
       = [(''$top'', ''10'')]"
  using callGraphAPI_deletes_filter_from_callers_object[of looping_config "''token''"
          "''me/messages''" "[(''$top'', ''10''), (''$filter'', ''isRead eq false'')]"
          looping_server "[]" "''GET''" None]
  by (simp add: real_call_def looping_config_def relative_path_def truthy_def delete_key_def)

text \<open>
  Claim C10 as stated covers every parameter object that contains a \<open>$filter\<close> key. The
  object \<open>{$filter: ''}\<close> contains the key, and after the call it still does.
\<close>

theorem callGraphAPI_keeps_empty_filter:
  "map_of [(''$filter'', [])] ''$filter'' \<noteq> None
   \<and> real_call looping_config ''token'' \<and> relative_path ''me/messages''
   \<and> map_of (fst (snd (callGraphAPI looping_config looping_server [] ''token'' ''GET''
                         ''me/messages'' None [(''$filter'', [])]))) ''$filter'' \<noteq> None"
  by (simp add: callGraphAPI_def looping_config_def buildUrl_def buildQueryString_def Let_def
        truthy_def real_call_def relative_path_def)

subsection \<open>Calls that arrive while a refresh is pending\<close>











lemma refreshed_keeps_refresh_token:
  "truthy (refresh_token d) \<Longrightarrow> truthy (refresh_token (refreshedTokens rb now d))"
  by (simp add: refreshedTokens_def)





subsection \<open>How \<open>getValidAccessToken\<close> comes to return \<open>null\<close>\<close>









subsection \<open>How \<open>getAccessToken\<close> of \<open>token-manager.js\<close> comes to return \<open>null\<close>\<close>






subsection \<open>Claims about \<open>getValidAccessToken\<close> and about concurrent refreshes\<close>






section \<open>Properties of the URI encoding and of the query string\<close>

subsection \<open>Hexadecimal digits and plain characters\<close>


lemma hex_digit_val: "n < 16 \<Longrightarrow> hex_val (hex_digit n) = Some n"
  by (auto simp: hex_val_def hex_digit_def Let_def)

lemma plain_of_char:
  "plain c = (of_char c \<noteq> (38::nat) \<and> of_char c \<noteq> (61::nat) \<and> of_char c \<noteq> (43::nat)
              \<and> of_char c \<noteq> (37::nat))"
proof -
  have e: "(c = d) = (of_char c = (of_char d :: nat))" for d by simp
  have "(c = CHR ''&'') = (of_char c = (38::nat))" "(c = CHR ''='') = (of_char c = (61::nat))"
       "(c = CHR ''+'') = (of_char c = (43::nat))" "(c = CHR ''%'') = (of_char c = (37::nat))"
    by (simp_all only: e[of "CHR ''&''"] e[of "CHR ''=''"] e[of "CHR ''+''"] e[of "CHR ''%''"])
       simp_all
  then show ?thesis unfolding plain_def by simp
qed

lemma hex_digit_plain: "n < 16 \<Longrightarrow> plain (hex_digit n)"
  by (auto simp: plain_of_char hex_digit_def)

lemma alnum_plain: "alnum c \<Longrightarrow> plain c"
  by (auto simp: alnum_def plain_of_char Let_def)

lemma form_safe_plain: "form_safe c \<Longrightarrow> plain c"
  using alnum_plain[of c] by (auto simp: form_safe_def) (simp_all add: plain_def)

lemma uri_unreserved_plain: "uri_unreserved c \<Longrightarrow> plain c"
  using alnum_plain[of c] by (auto simp: uri_unreserved_def) (simp_all add: plain_def)



lemma percent_decode_plain: "c \<noteq> CHR ''%'' \<Longrightarrow> percent_decode (c # xs) = c # percent_decode xs"
proof (cases xs)
  case Nil
  then show ?thesis by simp
next
  case (Cons h t)
  assume c: "c \<noteq> CHR ''%''"
  show ?thesis using Cons c by (cases t) simp_all
qed

lemma percent_decode_pct: "percent_decode (pct c @ xs) = c # percent_decode xs"
proof -
  have "of_char c div 16 < (16::nat)" "of_char c mod 16 < (16::nat)"
    using nat_of_char_less_256[of c] by (simp_all add: div_less_iff_less_mult)
  then show ?thesis
    by (simp add: pct_def hex_digit_val)
qed

subsection \<open>Decoding what the encoders write\<close>


lemma plus_to_space_plain: "\<forall>x \<in> set s. x \<noteq> CHR ''+'' \<Longrightarrow> plus_to_space s = s"
  by (induction s) (simp_all add: plus_to_space_def)

lemma plus_to_space_append: "plus_to_space (a @ b) = plus_to_space a @ plus_to_space b"
  by (simp add: plus_to_space_def)

lemma nibbles: "of_char c div 16 < (16::nat)" "of_char c mod 16 < (16::nat)"
  using nat_of_char_less_256[of c] by (simp_all add: div_less_iff_less_mult)

lemma pct_plain: "x \<in> set (pct c) \<Longrightarrow> x \<noteq> CHR ''&'' \<and> x \<noteq> CHR ''='' \<and> x \<noteq> CHR ''+''"
  using hex_digit_plain[OF nibbles(1), of c] hex_digit_plain[OF nibbles(2), of c]
  by (auto simp only: pct_def plain_def set_simps insert_iff empty_iff)

lemma dec_pct: "dec (pct c @ xs) = c # dec xs"
proof -
  have "plus_to_space (pct c) = pct c"
    using pct_plain[of _ c] by (intro plus_to_space_plain) blast
  then show ?thesis
    by (simp only: dec_def plus_to_space_append percent_decode_pct)
qed

lemma dec_plain: "plain c \<Longrightarrow> dec (c # xs) = c # dec xs"
proof -
  assume p: "plain c"
  then have "plus_to_space (c # xs) = c # plus_to_space xs"
    by (simp add: plus_to_space_def plain_def)
  moreover have "c \<noteq> CHR ''%''" using p by (simp add: plain_def)
  then have "percent_decode (c # plus_to_space xs) = c # percent_decode (plus_to_space xs)"
    by (rule percent_decode_plain)
  ultimately show ?thesis unfolding dec_def by metis
qed

lemma dec_plus: "dec (CHR ''+'' # xs) = CHR '' '' # dec xs"
proof -
  have "plus_to_space (CHR ''+'' # xs) = CHR '' '' # plus_to_space xs"
    by (simp add: plus_to_space_def)
  then show ?thesis by (simp only: dec_def) (rule percent_decode_plain, simp)
qed

lemma form_encode_Cons:
  "form_encode (c # s) =
     (if form_safe c then [c] else if c = CHR '' '' then ''+'' else pct c) @ form_encode s"
  by (simp add: form_encode_def)

lemma encodeURIComponent_Cons:
  "encodeURIComponent (c # s) = (if uri_unreserved c then [c] else pct c) @ encodeURIComponent s"
  by (simp add: encodeURIComponent_def)

lemma dec_form_encode_append: "dec (form_encode s @ xs) = s @ dec xs"
proof (induction s)
  case Nil
  then show ?case by (simp add: form_encode_def)
next
  case (Cons c s)
  consider "form_safe c" | "\<not> form_safe c" "c = CHR '' ''" | "\<not> form_safe c" "c \<noteq> CHR '' ''"
    by blast
  then show ?case
  proof cases
    case 1
    then show ?thesis using Cons.IH dec_plain[OF form_safe_plain[OF 1]]
      by (simp add: form_encode_Cons)
  next
    case 2
    then show ?thesis using Cons.IH by (simp add: form_encode_Cons dec_plus)
  next
    case 3
    then show ?thesis using Cons.IH dec_pct[of c "form_encode s @ xs"]
      by (simp add: form_encode_Cons)
  qed
qed


lemma dec_encodeURIComponent_append: "dec (encodeURIComponent s @ xs) = s @ dec xs"
proof (induction s)
  case Nil
  then show ?case by (simp add: encodeURIComponent_def)
next
  case (Cons c s)
  show ?case
  proof (cases "uri_unreserved c")
    case True
    then show ?thesis using Cons.IH dec_plain[OF uri_unreserved_plain[OF True]]
      by (simp add: encodeURIComponent_Cons)
  next
    case False
    then show ?thesis using Cons.IH dec_pct[of c "encodeURIComponent s @ xs"]
      by (simp add: encodeURIComponent_Cons)
  qed
qed

lemma dec_Nil: "dec [] = []"
  by (simp add: dec_def plus_to_space_def)

lemma dec_form_encode: "dec (form_encode s) = s"
  using dec_form_encode_append[of s "[]"] by (simp add: dec_Nil)

lemma dec_encodeURIComponent: "dec (encodeURIComponent s) = s"
  using dec_encodeURIComponent_append[of s "[]"] by (simp add: dec_Nil)

lemma form_encode_chars:
  "x \<in> set (form_encode s) \<Longrightarrow> x \<noteq> CHR ''&'' \<and> x \<noteq> CHR ''=''"
proof (induction s)
  case Nil
  then show ?case by (simp add: form_encode_def)
next
  case (Cons c s)
  from Cons.prems consider "form_safe c" "x = c" | "x = CHR ''+''" | "x \<in> set (pct c)"
    | "x \<in> set (form_encode s)"
    by (auto simp: form_encode_Cons split: if_splits)
  then show ?case
  proof cases
    case 1
    then show ?thesis using form_safe_plain[of c] by (simp add: plain_def)
  next
    case 2
    then show ?thesis by simp
  next
    case 3
    then show ?thesis using pct_plain[of x c] by simp
  next
    case 4
    then show ?thesis using Cons.IH by simp
  qed
qed

lemma encodeURIComponent_chars:
  "x \<in> set (encodeURIComponent s) \<Longrightarrow> x \<noteq> CHR ''&'' \<and> x \<noteq> CHR ''='' \<and> x \<noteq> CHR ''+''"
proof (induction s)
  case Nil
  then show ?case by (simp add: encodeURIComponent_def)
next
  case (Cons c s)
  from Cons.prems consider "uri_unreserved c" "x = c" | "x \<in> set (pct c)"
    | "x \<in> set (encodeURIComponent s)"
    by (auto simp: encodeURIComponent_Cons split: if_splits)
  then show ?case
  proof cases
    case 1
    then show ?thesis using uri_unreserved_plain[of c] by (simp add: plain_def)
  next
    case 2
    then show ?thesis using pct_plain[of x c] by simp
  next
    case 3
    then show ?thesis using Cons.IH by simp
  qed
qed

lemma decodeURIComponent_pct:
  "decodeURIComponent (pct c @ xs) = map_option ((#) c) (decodeURIComponent xs)"
  by (simp add: pct_def hex_digit_val[OF nibbles(1)] hex_digit_val[OF nibbles(2)])

lemma decodeURIComponent_encode_append:
  "decodeURIComponent (encodeURIComponent s @ xs) = map_option ((@) s) (decodeURIComponent xs)"
proof (induction s)
  case Nil
  then show ?case by (simp add: encodeURIComponent_def option.map_ident)
next
  case (Cons c s)
  show ?case
  proof (cases "uri_unreserved c")
    case True
    then have "c \<noteq> CHR ''%''" using uri_unreserved_plain[of c] by (simp add: plain_def)
    then show ?thesis using True Cons.IH
      by (simp add: encodeURIComponent_Cons option.map_comp comp_def)
  next
    case False
    then show ?thesis using Cons.IH decodeURIComponent_pct[of c "encodeURIComponent s @ xs"]
      by (simp add: encodeURIComponent_Cons option.map_comp comp_def)
  qed
qed

lemma decodeURIComponent_roundtrip: "decodeURIComponent (encodeURIComponent s) = Some s"
  using decodeURIComponent_encode_append[of s "[]"] by simp

subsection \<open>Cutting the query string into its parameters\<close>


lemma split_on_no_sep: "sep \<notin> set a \<Longrightarrow> split_on sep a = [a]"
  by (induction a) auto

lemma split_on_append: "sep \<notin> set a \<Longrightarrow> split_on sep (a @ sep # b) = a # split_on sep b"
  by (induction a) auto

lemma split_on_join:
  "ws \<noteq> [] \<Longrightarrow> \<forall>w \<in> set ws. sep \<notin> set w \<Longrightarrow> split_on sep (join [sep] ws) = ws"
proof (induction "[sep]" ws rule: join.induct)
  case 1
  then show ?case by simp
next
  case (2 w)
  then show ?case by (simp add: split_on_no_sep)
next
  case (3 w v ws)
  then show ?case by (simp add: split_on_append)
qed

lemma join_snoc: "ws \<noteq> [] \<Longrightarrow> join sep ws @ sep @ w = join sep (ws @ [w])"
  by (induction sep ws rule: join.induct) auto

lemma join_nonempty: "ws \<noteq> [] \<Longrightarrow> \<forall>w \<in> set ws. w \<noteq> [] \<Longrightarrow> join sep ws \<noteq> []"
  by (induction sep ws rule: join.induct) auto

lemma cut_at_equals:
  assumes "CHR ''='' \<notin> set a"
  shows "takeWhile (\<lambda>c. c \<noteq> CHR ''='') (a @ CHR ''='' # b) = a"
    and "drop 1 (dropWhile (\<lambda>c. c \<noteq> CHR ''='') (a @ CHR ''='' # b)) = b"
  using assms by (induction a) auto


lemma URLSearchParams_toString_pieces:
  "URLSearchParams_toString ps = join ''&'' (map pair_piece ps)"
proof -
  have "(\<lambda>(k, v). form_encode k @ ''='' @ form_encode v) = pair_piece"
    by (auto simp: pair_piece_def fun_eq_iff)
  then show ?thesis by (simp only: URLSearchParams_toString_def)
qed

lemma parse_pair_piece: "parse_piece (pair_piece p) = p"
proof -
  have "CHR ''='' \<notin> set (form_encode (fst p))" using form_encode_chars by blast
  then show ?thesis
    using cut_at_equals[of "form_encode (fst p)" "form_encode (snd p)"]
    by (simp add: parse_piece_def pair_piece_def dec_form_encode)
qed

lemma parse_filter_piece:
  "parse_piece (''$filter='' @ encodeURIComponent f) = (''$filter'', f)"
proof -
  have "CHR ''='' \<notin> set ''$filter''" by simp
  from cut_at_equals[OF this, of "encodeURIComponent f"]
  have "parse_piece (''$filter='' @ encodeURIComponent f) = (dec ''$filter'', dec (encodeURIComponent f))"
    by (simp add: parse_piece_def)
  moreover have "dec ''$filter'' = ''$filter''"
    by (simp add: dec_def plus_to_space_def)
  ultimately show ?thesis by (simp add: dec_encodeURIComponent)
qed

lemma pair_piece_chars: "CHR ''&'' \<notin> set (pair_piece p)" "pair_piece p \<noteq> []"
  using form_encode_chars by (auto simp: pair_piece_def)

lemma filter_piece_chars:
  "CHR ''&'' \<notin> set (''$filter='' @ encodeURIComponent f)" "''$filter='' @ encodeURIComponent f \<noteq> []"
  using encodeURIComponent_chars by auto

lemma parse_pieces:
  assumes "pieces \<noteq> []" "\<forall>w \<in> set pieces. CHR ''&'' \<notin> set w \<and> w \<noteq> []"
  shows "URLSearchParams_parse (''?'' @ join ''&'' pieces) = map parse_piece pieces"
proof -
  have "split_on CHR ''&'' (join ''&'' pieces) = pieces"
    using assms by (intro split_on_join) auto
  moreover have "filter (\<lambda>piece. piece \<noteq> []) pieces = pieces"
    using assms(2) by (intro filter_True) auto
  ultimately show ?thesis
    by (simp add: URLSearchParams_parse_def parse_piece_def dec_def)
qed

lemma parse_built:
  "URLSearchParams_parse (''?'' @ join ''&'' (map pair_piece ps @ [''$filter='' @ encodeURIComponent f]))
     = ps @ [(''$filter'', f)]"
proof -
  let ?pieces = "map pair_piece ps @ [''$filter='' @ encodeURIComponent f]"
  have "URLSearchParams_parse (''?'' @ join ''&'' ?pieces) = map parse_piece ?pieces"
    using pair_piece_chars filter_piece_chars[of f]
    by (intro parse_pieces) auto
  also have "\<dots> = ps @ [(''$filter'', f)]"
    by (simp add: parse_pair_piece parse_filter_piece comp_def del: append.simps)
  finally show ?thesis .
qed

lemma toString_nonempty: "ps \<noteq> [] \<Longrightarrow> URLSearchParams_toString ps \<noteq> []"
  unfolding URLSearchParams_toString_pieces
  using pair_piece_chars(2) by (intro join_nonempty) auto

lemma toString_Nil: "URLSearchParams_toString [] = []"
  by (simp add: URLSearchParams_toString_def)

lemma with_filter_piece:
  "(if ps = [] then [] else URLSearchParams_toString ps @ ''&'') @ w
     = join ''&'' (map pair_piece ps @ [w])"
proof (cases "ps = []")
  case True
  then show ?thesis by simp
next
  case False
  then have "join ''&'' (map pair_piece ps) @ ''&'' @ w = join ''&'' (map pair_piece ps @ [w])"
    by (intro join_snoc) simp
  then show ?thesis using False by (simp add: URLSearchParams_toString_pieces)
qed

lemma buildQueryString_filter_raw:
  assumes "map_of queryParams ''$filter'' = Some f" "f \<noteq> []"
  shows "fst (buildQueryString queryParams) =
           ''?'' @ (if delete_key ''$filter'' queryParams = [] then []
                    else URLSearchParams_toString (delete_key ''$filter'' queryParams) @ ''&'')
                 @ ''$filter='' @ encodeURIComponent f"
proof -
  have ne: "queryParams \<noteq> []" using assms(1) by auto
  have t: "truthy (map_of queryParams ''$filter'')" using assms by (simp add: truthy_def)
  show ?thesis
    using ne t assms(1) toString_nonempty[of "delete_key ''$filter'' queryParams"]
    by (simp add: buildQueryString_def Let_def toString_Nil)
qed

lemma buildQueryString_filter:
  assumes "map_of queryParams ''$filter'' = Some f" "f \<noteq> []"
  shows "fst (buildQueryString queryParams) =
           ''?'' @ join ''&'' (map pair_piece (delete_key ''$filter'' queryParams)
                               @ [''$filter='' @ encodeURIComponent f])"
  using buildQueryString_filter_raw[OF assms]
        with_filter_piece[of "delete_key ''$filter'' queryParams" "''$filter='' @ encodeURIComponent f"]
  by (simp only: append_assoc)

lemma buildQueryString_v2_filter_raw:
  assumes "map_of queryParams ''$filter'' = Some f"
  shows "buildQueryString_v2 None queryParams =
           ''?'' @ (if delete_key ''$filter'' queryParams = [] then []
                    else URLSearchParams_toString (delete_key ''$filter'' queryParams) @ ''&'')
                 @ ''$filter='' @ encodeURIComponent f"
proof -
  have ne: "queryParams \<noteq> []" using assms(1) by auto
  show ?thesis
    using ne assms(1) toString_nonempty[of "delete_key ''$filter'' queryParams"]
    by (simp add: buildQueryString_v2_def Let_def toString_Nil truthy_def)
qed

lemma buildQueryString_v2_filter:
  assumes "map_of queryParams ''$filter'' = Some f"
  shows "buildQueryString_v2 None queryParams =
           ''?'' @ join ''&'' (map pair_piece (delete_key ''$filter'' queryParams)
                               @ [''$filter='' @ encodeURIComponent f])"
  using buildQueryString_v2_filter_raw[OF assms]
        with_filter_piece[of "delete_key ''$filter'' queryParams" "''$filter='' @ encodeURIComponent f"]
  by (simp only: append_assoc)

subsection \<open>Claim about the filter parameter\<close>

lemma rawQuery_none: "CHR ''?'' \<notin> set path \<Longrightarrow> rawQuery_of path = None \<and> rawPath_of path = path"
  by (simp add: rawQuery_of_def rawPath_of_def split_on_no_sep)

text \<open>
  A filter that arrives inside the path, as \<open>email/list.js\<close> passes it for a folder named
  \<open>R&D\<close>: the second variant cuts the path's query string at the \<open>&\<close> and writes the
  rest of the filter back without encoding it.
\<close>

lemma buildUrl_v2_filter_in_path:
  "buildUrl_v2 (''me/mailFolders?$filter=displayName eq 'R&D'' @ [CHR 0x27]) []
     = ''https://graph.microsoft.com/v1.0/me/mailFolders?D%27=&$filter=displayName eq 'R''"
  by code_simp

text \<open>
  Claim C8, as the code has it. For every non-empty filter expression given as
  \<open>queryParams.$filter\<close>, whatever characters it contains, both variants of \<open>callGraphAPI\<close>
  write the query string as the generic serialiser's output for the other parameters
  followed by \<open>$filter=\<close> and \<open>encodeURIComponent\<close> of the expression. The builder always
  encodes once, so the value carries exactly one level of encoding over what the caller
  passed: parsing the query string gives back every other parameter and then \<open>$filter\<close>
  with exactly the expression passed, \<open>decodeURIComponent\<close> of the written value is that
  expression, and the written value contains no \<open>&\<close>.
\<close>

theorem filter_round_trips_through_query_string:
  "map_of queryParams ''$filter'' = Some f \<Longrightarrow> f \<noteq> [] \<Longrightarrow>
   fst (buildQueryString queryParams)
     = ''?'' @ (if delete_key ''$filter'' queryParams = [] then []
                else URLSearchParams_toString (delete_key ''$filter'' queryParams) @ ''&'')
           @ ''$filter='' @ encodeURIComponent f
   \<and> buildQueryString_v2 None queryParams = fst (buildQueryString queryParams)
   \<and> URLSearchParams_parse (fst (buildQueryString queryParams))
       = delete_key ''$filter'' queryParams @ [(''$filter'', f)]
   \<and> decodeURIComponent (encodeURIComponent f) = Some f
   \<and> CHR ''&'' \<notin> set (encodeURIComponent f)
   \<and> (relative_path path \<longrightarrow>
        fst (buildUrl path queryParams)
          = GRAPH_API_ENDPOINT @ encodePath path @ fst (buildQueryString queryParams))
   \<and> (relative_path path \<and> CHR ''?'' \<notin> set path \<longrightarrow>
        buildUrl_v2 path queryParams
          = GRAPH_API_ENDPOINT @ encodePath path @ fst (buildQueryString queryParams))"
proof -
  assume f: "map_of queryParams ''$filter'' = Some f" and ne: "f \<noteq> []"
  note raw = buildQueryString_filter_raw[OF f ne]
  have v2: "buildQueryString_v2 None queryParams = fst (buildQueryString queryParams)"
    using buildQueryString_v2_filter[OF f] buildQueryString_filter[OF f ne] by simp
  have parse: "URLSearchParams_parse (fst (buildQueryString queryParams))
                 = delete_key ''$filter'' queryParams @ [(''$filter'', f)]"
    by (simp only: buildQueryString_filter[OF f ne] parse_built)
  have amp: "CHR ''&'' \<notin> set (encodeURIComponent f)"
    using encodeURIComponent_chars by blast
  have u1: "relative_path path \<longrightarrow>
        fst (buildUrl path queryParams)
          = GRAPH_API_ENDPOINT @ encodePath path @ fst (buildQueryString queryParams)"
    by (simp add: buildUrl_def relative_path_def split_beta)
  have u2: "relative_path path \<and> CHR ''?'' \<notin> set path \<longrightarrow>
        buildUrl_v2 path queryParams
          = GRAPH_API_ENDPOINT @ encodePath path @ fst (buildQueryString queryParams)"
    using v2 by (auto simp: buildUrl_v2_def relative_path_def rawQuery_none)
  show ?thesis
    using raw v2 parse amp u1 u2 decodeURIComponent_roundtrip[of f] by blast
qed

theorem filter_round_trips_through_query_string_witness:
  "map_of [(''$top'', ''10''), (''$filter'', folder_filter)] ''$filter'' = Some folder_filter
   \<and> folder_filter \<noteq> []
   \<and> fst (buildQueryString [(''$top'', ''10''), (''$filter'', folder_filter)])
       = ''?%24top=10&$filter=startswith(displayName%2C'R%26D')''
   \<and> URLSearchParams_parse (fst (buildQueryString [(''$top'', ''10''), (''$filter'', folder_filter)]))
       = [(''$top'', ''10''), (''$filter'', folder_filter)]
   \<and> decodeURIComponent (encodeURIComponent folder_filter) = Some folder_filter"
proof -
  have a: "map_of [(''$top'', ''10''), (''$filter'', folder_filter)] ''$filter'' = Some folder_filter"
    by simp
  have b: "folder_filter \<noteq> []" by (simp add: folder_filter_def)
  have c: "fst (buildQueryString [(''$top'', ''10''), (''$filter'', folder_filter)])
             = ''?%24top=10&$filter=startswith(displayName%2C'R%26D')''"
    unfolding folder_filter_def by code_simp
  have d: "delete_key ''$filter'' [(''$top'', ''10''), (''$filter'', folder_filter)] = [(''$top'', ''10'')]"
    by (simp add: delete_key_def)
  note T = filter_round_trips_through_query_string[OF a b, of "''me/mailFolders''"]
  have p: "URLSearchParams_parse (fst (buildQueryString [(''$top'', ''10''), (''$filter'', folder_filter)]))
             = delete_key ''$filter'' [(''$top'', ''10''), (''$filter'', folder_filter)]
               @ [(''$filter'', folder_filter)]"
    using T by blast
  have p': "URLSearchParams_parse (fst (buildQueryString [(''$top'', ''10''), (''$filter'', folder_filter)]))
             = [(''$top'', ''10''), (''$filter'', folder_filter)]"
    unfolding p d by simp
  have r: "decodeURIComponent (encodeURIComponent folder_filter) = Some folder_filter"
    using T by blast
  show ?thesis
    using a b c p' r by (intro conjI)
qed

text \<open>
  Claim C8 as stated promises that a filter which the caller has already encoded is not
  encoded twice. Neither variant looks at what \<open>queryParams.$filter\<close> holds: the encoded
  form of \<open>startswith(displayName,'R&D')\<close> is encoded again, \<open>%\<close> becoming \<open>%25\<close>, and what
  the query string then holds under \<open>$filter\<close> is the caller's encoded text, not the
  expression.
\<close>

theorem preencoded_filter_is_encoded_again:
  "encodeURIComponent folder_filter = folder_filter_encoded
   \<and> fst (buildQueryString [(''$filter'', folder_filter_encoded)])
       = ''?$filter=startswith(displayName%252C'R%2526D')''
   \<and> buildQueryString_v2 None [(''$filter'', folder_filter_encoded)]
       = ''?$filter=startswith(displayName%252C'R%2526D')''
   \<and> map_of (URLSearchParams_parse (fst (buildQueryString [(''$filter'', folder_filter_encoded)])))
         ''$filter'' = Some folder_filter_encoded
   \<and> folder_filter_encoded \<noteq> folder_filter"
  unfolding folder_filter_def folder_filter_encoded_def by code_simp

end
